theory Spec2Isabelle
  imports Complex_Main "HOL-Library.Sublist"
begin

section \<open>Normalized employees and metric strategies\<close>

text \<open>
  A JavaScript \<open>Date\<close> is modelled by its day number (the time value divided by the
  length of a day): every \<open>Date\<close> of the program is built at midnight of a calendar day,
  and \<open>\<le>\<close>, \<open>\<ge>\<close>, \<open>>\<close> on \<open>Date\<close> objects compare time values.  A field of type
  \<open>Date | null\<close> is a \<open>Date option\<close>, \<open>null\<close> being \<open>None\<close>.
\<close>

type_synonym Date = int

datatype Gender = M | F

text \<open>\<open>Employee\<close> of \<open>types.server.ts\<close>.\<close>

record Employee =
  emp_id :: string
  country :: string
  birthCountry :: string
  gender :: "Gender option"
  contractStart :: "Date option"
  contractEnd :: "Date option"
  pcsEse :: "string option"

text \<open>The reporting period \<open>{ start: Date; end: Date }\<close>.\<close>

record Period =
  period_start :: Date
  period_end :: Date

text \<open>
  The strategies return \<open>{ value, explanation }\<close>; the functions below are the \<open>value\<close>
  component.  The explanation text is not modelled.
\<close>

text \<open>\<open>computeHeadcountAtPeriodStart\<close>: the filter keeps an employee when
  \<open>emp.contractStart && emp.contractStart <= periodStart &&
  (!emp.contractEnd || emp.contractEnd >= periodStart)\<close>.\<close>

definition activeAtStart :: "Date \<Rightarrow> Employee \<Rightarrow> bool" where
  "activeAtStart periodStart emp =
     (case contractStart emp of
        None \<Rightarrow> False
      | Some s \<Rightarrow> s \<le> periodStart \<and>
          (case contractEnd emp of None \<Rightarrow> True | Some e \<Rightarrow> e \<ge> periodStart))"

definition computeHeadcountAtPeriodStart :: "Employee list \<Rightarrow> Date \<Rightarrow> nat" where
  "computeHeadcountAtPeriodStart employees periodStart =
     length (filter (activeAtStart periodStart) employees)"

text \<open>\<open>computeHeadcountAtPeriodEnd\<close>: the filter callback returns false when the
  contract start is null, when it is after the date, and when the contract end is
  non-null and \<open><=\<close> the date; true otherwise.\<close>

definition activeAtEnd :: "Date \<Rightarrow> Employee \<Rightarrow> bool" where
  "activeAtEnd periodEndDate emp =
     (case contractStart emp of
        None \<Rightarrow> False
      | Some s \<Rightarrow>
          if s > periodEndDate then False
          else (case contractEnd emp of
                  None \<Rightarrow> True
                | Some e \<Rightarrow> if e \<le> periodEndDate then False else True))"

definition computeHeadcountAtPeriodEnd :: "Employee list \<Rightarrow> Date \<Rightarrow> nat" where
  "computeHeadcountAtPeriodEnd employees periodEndDate =
     length (filter (activeAtEnd periodEndDate) employees)"

text \<open>\<open>computeLeavers\<close>: employees with a contract end inside the period, bounds
  included.\<close>

definition isLeaver :: "Period \<Rightarrow> Employee \<Rightarrow> bool" where
  "isLeaver period emp =
     (case contractEnd emp of
        None \<Rightarrow> False
      | Some e \<Rightarrow> e \<ge> period_start period \<and> e \<le> period_end period)"

definition computeLeavers :: "Employee list \<Rightarrow> Period \<Rightarrow> nat" where
  "computeLeavers employees period = length (filter (isLeaver period) employees)"

text \<open>
  \<open>Number.prototype.toFixed(1)\<close> followed by \<open>parseFloat\<close>, on a non-negative number:
  the multiple of one tenth closest to the argument, the larger one on a tie.
\<close>

definition toFixed1 :: "rat \<Rightarrow> rat" where
  "toFixed1 x = of_int \<lfloor>x * 10 + 1 / 2\<rfloor> / 10"

text \<open>\<open>computeAverageHeadcount\<close> counts with its own two filters; both use \<open>>=\<close> on
  the contract end.  The sum of two array lengths and its half are exact in binary
  floating point, so the average is the rational \<open>(startCount + endCount) / 2\<close>.\<close>

definition computeAverageHeadcount :: "Employee list \<Rightarrow> Period \<Rightarrow> rat" where
  "computeAverageHeadcount employees period =
     (let startCount = length (filter (\<lambda>emp.
            case contractStart emp of
              None \<Rightarrow> False
            | Some s \<Rightarrow> s \<le> period_start period \<and>
                (case contractEnd emp of None \<Rightarrow> True | Some e \<Rightarrow> e \<ge> period_start period))
            employees);
          endCount = length (filter (\<lambda>emp.
            case contractStart emp of
              None \<Rightarrow> False
            | Some s \<Rightarrow> s \<le> period_end period \<and>
                (case contractEnd emp of None \<Rightarrow> True | Some e \<Rightarrow> e \<ge> period_end period))
            employees);
          average = (of_nat startCount + of_nat endCount) / 2
      in toFixed1 average)"

section \<open>JavaScript numbers\<close>

text \<open>
  A finite \<open>Number\<close> is modelled by the rational it denotes.  \<open>binary64\<close> rounds a
  rational to the nearest IEEE 754 double (53-bit significand, ties to even, gradual
  underflow); a result of magnitude \<open>2^1024\<close> or more is \<open>Infinity\<close>, for which the
  rational \<open>2^1024\<close> stands.  \<open>NaN\<close> is \<open>None\<close> where it can arise.
\<close>

function bitLength :: "int \<Rightarrow> nat" where
  "bitLength n = (if n \<le> 0 then 0 else Suc (bitLength (n div 2)))"
  by pat_completeness auto
termination
  by (relation "measure nat") auto

declare bitLength.simps [simp del]

text \<open>The exponent \<open>\<lfloor>log\<^sub>2 a\<rfloor>\<close> of a positive rational.\<close>

definition ilog2 :: "rat \<Rightarrow> int" where
  "ilog2 a =
     (let (p, q) = quotient_of a;
          k = int (bitLength p) - int (bitLength q)
      in if 2 powi k \<le> a then k else k - 1)"

definition roundHalfEven :: "rat \<Rightarrow> int" where
  "roundHalfEven y =
     (let f = \<lfloor>y\<rfloor>; r = y - of_int f
      in if r < 1 / 2 then f
         else if 1 / 2 < r then f + 1
         else if even f then f else f + 1)"

definition infinity :: rat where
  "infinity = 2 ^ 1024"

definition binary64 :: "rat \<Rightarrow> rat" where
  "binary64 x =
     (if x = 0 then 0
      else
        let a = \<bar>x\<bar>;
            e = max (ilog2 a - 52) (- 1074);
            m = roundHalfEven (a / 2 powi e);
            r = of_int m * 2 powi e
        in sgn x * (if infinity \<le> r then infinity else r))"

text \<open>\<open>Math.round\<close>: the closest integer, the larger one on a tie.\<close>

definition mathRound :: "rat \<Rightarrow> int" where
  "mathRound x = \<lfloor>x + 1 / 2\<rfloor>"

text \<open>
  \<open>computeTurnoverRate\<close>: leavers over the headcount at period start, guarded against
  a zero denominator.  The quotient and the product by 100 are each rounded to a
  double, as \<open>/\<close> and \<open>*\<close> do; both array lengths are exact doubles.
\<close>

definition computeTurnoverRate :: "Employee list \<Rightarrow> Period \<Rightarrow> int" where
  "computeTurnoverRate employees period =
     (let leavers = computeLeavers employees period;
          startHeadcount = computeHeadcountAtPeriodStart employees (period_start period)
      in if startHeadcount = 0 then 0
         else mathRound (binary64 (binary64 (of_nat leavers / of_nat startHeadcount) * 100)))"

section \<open>Strings\<close>

text \<open>
  Text is a list of characters.  A character is 8 bits wide, so the model covers the
  texts whose code units are below 256.  \<open>substring\<close> is
  \<open>String.prototype.substring\<close> on non-negative indices: both are clamped to the
  length and swapped when out of order.
\<close>

definition substring :: "string \<Rightarrow> nat \<Rightarrow> nat \<Rightarrow> string" where
  "substring s a b =
     (let a' = min a (length s); b' = min b (length s);
          lo = min a' b'; hi = max a' b'
      in take (hi - lo) (drop lo s))"

definition isDigit :: "char \<Rightarrow> bool" where
  "isDigit c \<longleftrightarrow> c \<in> set ''0123456789''"

text \<open>\<open>parseInt(s, 10)\<close> on a string that a preceding regular-expression test has
  shown to consist of decimal digits: its decimal value.\<close>

definition decimalValue :: "string \<Rightarrow> int" where
  "decimalValue s = foldl (\<lambda>a c. 10 * a + (int (of_char c) - 48)) 0 s"

text \<open>\<open>String.prototype.split\<close> at a single character: a string without the
  separator is one piece, the empty string included.\<close>

fun splitOn :: "char \<Rightarrow> string \<Rightarrow> string list" where
  "splitOn sep [] = [[]]"
| "splitOn sep (c # cs) =
     (if c = sep then [] # splitOn sep cs
      else (case splitOn sep cs of
              [] \<Rightarrow> [[c]]
            | piece # pieces \<Rightarrow> (c # piece) # pieces))"

text \<open>
  \<open>parseInt(s, radix)\<close>, radix 0 standing for an omitted radix: leading white space
  is skipped, a sign is read, a prefix \<open>0x\<close> or \<open>0X\<close> selects radix 16 when the radix
  is omitted or 16, and the longest prefix of digits of the radix is converted; without
  any digit the result is \<open>NaN\<close> (\<open>None\<close>).  White space is the ECMAScript set
  restricted to the 8-bit characters.  An integer below \<open>2^53\<close> is its own double.
\<close>

definition isWhiteSpace :: "char \<Rightarrow> bool" where
  "isWhiteSpace c \<longleftrightarrow> (of_char c :: nat) \<in> set [9, 10, 11, 12, 13, 32, 160]"

definition digitValue :: "char \<Rightarrow> nat option" where
  "digitValue c =
     (let n = (of_char c :: nat)
      in if 48 \<le> n \<and> n \<le> 57 then Some (n - 48)
         else if 97 \<le> n \<and> n \<le> 122 then Some (n - 87)
         else if 65 \<le> n \<and> n \<le> 90 then Some (n - 55)
         else None)"

definition isRadixDigit :: "nat \<Rightarrow> char \<Rightarrow> bool" where
  "isRadixDigit R c = (case digitValue c of None \<Rightarrow> False | Some v \<Rightarrow> v < R)"

definition digitsValue :: "nat \<Rightarrow> string \<Rightarrow> nat" where
  "digitsValue R Z = foldl (\<lambda>a c. a * R + (case digitValue c of None \<Rightarrow> 0 | Some v \<Rightarrow> v)) 0 Z"

definition toNumber :: "int \<Rightarrow> rat" where
  "toNumber n = (if \<bar>n\<bar> < 2 ^ 53 then of_int n else binary64 (of_int n))"

definition parseIntRadix :: "nat \<Rightarrow> string \<Rightarrow> rat option" where
  "parseIntRadix radix inputString =
     (let s = dropWhile isWhiteSpace inputString;
          sign = (if prefix ''-'' s then - 1 else 1 :: int);
          s1 = (if prefix ''+'' s \<or> prefix ''-'' s then tl s else s);
          stripPrefix = (radix = 0 \<or> radix = 16);
          hex = (stripPrefix \<and> (prefix ''0x'' s1 \<or> prefix ''0X'' s1));
          R = (if hex then 16 else if radix = 0 then 10 else radix);
          s2 = (if hex then drop 2 s1 else s1);
          Z = takeWhile (isRadixDigit R) s2
      in if radix \<noteq> 0 \<and> (radix < 2 \<or> 36 < radix) then None
         else if Z = [] then None
         else Some (of_int sign * toNumber (int (digitsValue R Z))))"

definition parseInt :: "string \<Rightarrow> rat option" where
  "parseInt inputString = parseIntRadix 0 inputString"

text \<open>\<open>a >= b\<close> on numbers: false when either side is \<open>NaN\<close>.\<close>

definition geNum :: "rat option \<Rightarrow> rat option \<Rightarrow> bool" where
  "geNum a b = (case a of None \<Rightarrow> False
                | Some x \<Rightarrow> (case b of None \<Rightarrow> False | Some y \<Rightarrow> y \<le> x))"

section \<open>Calendar dates\<close>

text \<open>
  The day arithmetic of the ECMAScript \<open>Date\<close> object, with the host time zone taken
  as UTC (another zone shifts every local midnight alike and changes neither the
  calendar fields nor the order of dates).  Months are numbered from 0.
\<close>

definition inLeapYear :: "int \<Rightarrow> bool" where
  "inLeapYear y =
     (if y mod 4 \<noteq> 0 then False
      else if y mod 100 \<noteq> 0 then True
      else if y mod 400 \<noteq> 0 then False
      else True)"

definition dayFromYear :: "int \<Rightarrow> int" where
  "dayFromYear y =
     365 * (y - 1970) + (y - 1969) div 4 - (y - 1901) div 100 + (y - 1601) div 400"

definition daysBeforeMonth :: "bool \<Rightarrow> int \<Rightarrow> int" where
  "daysBeforeMonth leap mn =
     (let l = (if leap then 1 else 0)
      in if mn = 0 then 0
         else if mn = 1 then 31
         else if mn = 2 then 59 + l
         else if mn = 3 then 90 + l
         else if mn = 4 then 120 + l
         else if mn = 5 then 151 + l
         else if mn = 6 then 181 + l
         else if mn = 7 then 212 + l
         else if mn = 8 then 243 + l
         else if mn = 9 then 273 + l
         else if mn = 10 then 304 + l
         else 334 + l)"

text \<open>\<open>MakeDay\<close>: months outside \<open>0..11\<close> carry into the year, and the day of the
  month is added as an offset, so day 0 is the last day of the previous month.\<close>

definition makeDay :: "int \<Rightarrow> int \<Rightarrow> int \<Rightarrow> int" where
  "makeDay year month date =
     (let ym = year + month div 12; mn = month mod 12
      in dayFromYear ym + daysBeforeMonth (inLeapYear ym) mn + date - 1)"

text \<open>\<open>new Date(year, month, day)\<close>: a year from 0 to 99 means 1900 + year.\<close>

definition newDate :: "int \<Rightarrow> int \<Rightarrow> int \<Rightarrow> Date" where
  "newDate year month day =
     makeDay (if 0 \<le> year \<and> year \<le> 99 then 1900 + year else year) month day"

text \<open>\<open>YearFromTime\<close> is the largest year whose first day is not after the date; it
  is found from the mean length of a Gregorian year, corrected by at most one.\<close>

definition yearFromDay :: "Date \<Rightarrow> int" where
  "yearFromDay t =
     (let y = 1970 + (400 * t) div 146097
      in if t < dayFromYear y then y - 1
         else if dayFromYear (y + 1) \<le> t then y + 1
         else y)"

definition dayWithinYear :: "Date \<Rightarrow> int" where
  "dayWithinYear t = t - dayFromYear (yearFromDay t)"

definition getFullYear :: "Date \<Rightarrow> int" where
  "getFullYear t = yearFromDay t"

definition getMonth :: "Date \<Rightarrow> int" where
  "getMonth t =
     (let d = dayWithinYear t; l = (if inLeapYear (yearFromDay t) then 1 else 0)
      in if d < 31 then 0
         else if d < 59 + l then 1
         else if d < 90 + l then 2
         else if d < 120 + l then 3
         else if d < 151 + l then 4
         else if d < 181 + l then 5
         else if d < 212 + l then 6
         else if d < 243 + l then 7
         else if d < 273 + l then 8
         else if d < 304 + l then 9
         else if d < 334 + l then 10
         else 11)"

definition getDate :: "Date \<Rightarrow> int" where
  "getDate t =
     dayWithinYear t - daysBeforeMonth (inLeapYear (yearFromDay t)) (getMonth t) + 1"

text \<open>The length of a month of the Gregorian calendar, months numbered from 0.\<close>

definition daysInMonth :: "int \<Rightarrow> int \<Rightarrow> int" where
  "daysInMonth year mn =
     (if mn = 1 then (if inLeapYear year then 29 else 28)
      else if mn = 3 \<or> mn = 5 \<or> mn = 8 \<or> mn = 10 then 30
      else 31)"

text \<open>\<open>parseDsnDate\<close>: an 8-digit token \<open>YYYYMMDD\<close>; the date is rejected when the
  constructed \<open>Date\<close> does not give back the same year, month and day.\<close>

definition parseDsnDate :: "string \<Rightarrow> Date option" where
  "parseDsnDate dsnDateStr =
     (if \<not> (length dsnDateStr = 8 \<and> list_all isDigit dsnDateStr) then None
      else
        let year = decimalValue (substring dsnDateStr 0 4);
            month = decimalValue (substring dsnDateStr 4 6) - 1;
            day = decimalValue (substring dsnDateStr 6 8);
            date = newDate year month day
        in if getFullYear date \<noteq> year \<or> getMonth date \<noteq> month \<or> getDate date \<noteq> day
           then None
           else Some date)"

section \<open>The declaration and its parser\<close>

datatype error =
    MissingRequiredBlocks
  | StructuralErrors
  | MissingReportingPeriod
  | InvalidPeriodFormat string
  | InvalidPeriodValues string int int
  | CsvTooShort
  | MissingColumn string
  | RowFieldCount nat nat nat
  | TypeError

text \<open>The entity graph of \<open>dsn-reader.server.ts\<close>.  An optional field is an
  \<open>option\<close>, \<open>undefined\<close> being \<open>None\<close>.\<close>

record DSNRow =
  blocCode :: string
  rubriqueCode :: string
  valueCode :: string
  row_value :: string

record DataDSN =
  rows :: "DSNRow list"
  data_errors :: "string list"

record Contrat =
  dateDebut :: "string option"
  dateFin :: "string option"
  statutConventionnel :: "string option"
  c_pcsEse :: "string option"
  complementPcsEse :: "string option"
  c_nature :: "string option"
  dispositifPolitique :: "string option"
  numero :: "string option"
  uniteMesure :: "string option"
  quotiteCategorie :: "string option"
  quotite :: "string option"
  modaliteTemps :: "string option"

record Versement =
  v_date :: "string option"

record Individu =
  identifiant :: "string option"
  nomFamille :: "string option"
  nomUsage :: "string option"
  prenoms :: "string option"
  sexe :: "string option"
  pays :: "string option"
  identifiantTechnique :: "string option"
  contrats :: "Contrat list"
  versements :: "Versement list"

record Etablissement =
  nic :: "string option"
  countryCode :: "string option"
  individus :: "Individu list"

record Entreprise =
  siren :: "string option"
  ent_nic :: "string option"
  ent_country :: "string option"
  etablissements :: "Etablissement list option"

record Declaration =
  d_nature :: "string option"
  d_type :: "string option"
  fraction :: "string option"
  ordre :: "string option"
  mois :: "string option"
  dateFichier :: "string option"
  champ :: "string option"
  devise :: "string option"
  entreprise :: "Entreprise option"
  errors :: "string list"
  validStatement :: bool

subsection \<open>Conformity pre-check\<close>

text \<open>\<open>hasRequiredBlocks\<close>: the content is split at line feeds and each of the three
  patterns \<open>/^S10\./\<close>, \<open>/^S20\./\<close>, \<open>/^S21\./\<close> must match some line.\<close>

definition hasRequiredBlocks :: "string \<Rightarrow> bool" where
  "hasRequiredBlocks content =
     (let lines = splitOn (CHR 0x0A) content;
          hasS10 = list_ex (prefix ''S10.'') lines;
          hasS20 = list_ex (prefix ''S20.'') lines;
          hasS21 = list_ex (prefix ''S21.'') lines
      in hasS10 \<and> hasS20 \<and> hasS21)"

subsection \<open>Line parser\<close>

text \<open>
  The test \<open>/^S[0-9]{2}\.G[0-9]{2}\.[0-9]{2}\.[0-9]{3},'.*'/\<close>: a 16-character prefix
  and, after it, a quote that \<open>.*\<close> can reach, that is, before any line terminator.
\<close>

definition isLineTerminator :: "char \<Rightarrow> bool" where
  "isLineTerminator c \<longleftrightarrow> c = CHR 0x0A \<or> c = CHR 0x0D"

definition matchesRecord :: "string \<Rightarrow> bool" where
  "matchesRecord row \<longleftrightarrow>
     16 \<le> length row \<and>
     row ! 0 = CHR ''S'' \<and> isDigit (row ! 1) \<and> isDigit (row ! 2) \<and> row ! 3 = CHR ''.'' \<and>
     row ! 4 = CHR ''G'' \<and> isDigit (row ! 5) \<and> isDigit (row ! 6) \<and> row ! 7 = CHR ''.'' \<and>
     isDigit (row ! 8) \<and> isDigit (row ! 9) \<and> row ! 10 = CHR ''.'' \<and>
     isDigit (row ! 11) \<and> isDigit (row ! 12) \<and> isDigit (row ! 13) \<and>
     row ! 14 = CHR '','' \<and> row ! 15 = CHR 0x27 \<and>
     CHR 0x27 \<in> set (takeWhile (\<lambda>c. \<not> isLineTerminator c) (drop 16 row))"

definition toRow :: "string \<Rightarrow> DSNRow" where
  "toRow row =
     \<lparr>blocCode = substring row 0 10,
      rubriqueCode = substring row 0 14,
      valueCode = substring row 11 14,
      row_value = substring row 16 (length row - 1)\<rparr>"

definition DSNFileReader :: "string \<Rightarrow> DataDSN" where
  "DSNFileReader content =
     (let lines = splitOn (CHR 0x0A) (filter (\<lambda>c. c \<noteq> CHR 0x0D) content)
      in \<lparr>rows = map toRow (filter matchesRecord lines), data_errors = []\<rparr>)"

subsection \<open>Block aggregator\<close>

type_synonym Bloc = "string \<rightharpoonup> string"

function getBloc_loop :: "DSNRow list \<Rightarrow> string \<Rightarrow> string \<Rightarrow> nat \<Rightarrow> Bloc \<Rightarrow> Bloc" where
  "getBloc_loop rs bc vc currentIndex bloc =
     (if currentIndex < length rs \<and>
         blocCode (rs ! currentIndex) = bc \<and>
         geNum (parseInt (valueCode (rs ! currentIndex))) (parseInt vc)
      then
        let row = rs ! currentIndex
        in getBloc_loop rs bc (valueCode row) (currentIndex + 1)
             (bloc(rubriqueCode row \<mapsto> row_value row))
      else bloc)"
  by pat_completeness auto
termination
  by (relation "measure (\<lambda>(rs, bc, vc, currentIndex, bloc). length rs - currentIndex)") auto

declare getBloc_loop.simps [simp del]

text \<open>\<open>getBloc\<close>: the starting sequence code is that of the row at \<open>index\<close>, or
  \<open>"001"\<close> when there is no such row or its code is empty.\<close>

definition getBloc :: "DSNRow list \<Rightarrow> nat \<Rightarrow> string \<Rightarrow> Bloc" where
  "getBloc rs index bc =
     getBloc_loop rs bc
       (if index < length rs \<and> valueCode (rs ! index) \<noteq> [] then valueCode (rs ! index)
        else ''001'')
       index Map.empty"

subsection \<open>Declaration builder\<close>

text \<open>The objects of the graph are mutated in place through the last element of their
  parent's list; in the model the last element is replaced by its updated copy.\<close>

definition updateLast :: "('a \<Rightarrow> 'a) \<Rightarrow> 'a list \<Rightarrow> 'a list" where
  "updateLast f xs = (if xs = [] then [] else butlast xs @ [f (last xs)])"

text \<open>\<open>declaration.entreprise?.etablissements || []\<close>.\<close>

definition etablissementsOf :: "Declaration \<Rightarrow> Etablissement list" where
  "etablissementsOf declaration =
     (case entreprise declaration of
        None \<Rightarrow> []
      | Some e \<Rightarrow> (case etablissements e of None \<Rightarrow> [] | Some es \<Rightarrow> es))"

definition emptyEntreprise :: Entreprise where
  "emptyEntreprise = \<lparr>siren = None, ent_nic = None, ent_country = None, etablissements = None\<rparr>"

text \<open>The branch for \<open>S20.G00.05\<close>: header fields.\<close>

definition processHeader :: "Bloc \<Rightarrow> Declaration \<Rightarrow> Declaration" where
  "processHeader bloc declaration =
     declaration
       \<lparr>d_nature := bloc ''S20.G00.05.001'',
        d_type := bloc ''S20.G00.05.002'',
        fraction := bloc ''S20.G00.05.003'',
        ordre := bloc ''S20.G00.05.004'',
        mois := bloc ''S20.G00.05.005'',
        dateFichier := bloc ''S20.G00.05.007'',
        champ := bloc ''S20.G00.05.008'',
        devise := bloc ''S20.G00.05.010''\<rparr>"

text \<open>The branch for \<open>S21.G00.06\<close>: \<open>declaration.entreprise\<close> is assigned a new object
  with the three identity fields only.\<close>

definition processEntreprise :: "Bloc \<Rightarrow> Declaration \<Rightarrow> Declaration" where
  "processEntreprise bloc declaration =
     declaration
       \<lparr>entreprise := Some
          \<lparr>siren = bloc ''S21.G00.06.001'',
           ent_nic = bloc ''S21.G00.06.002'',
           ent_country = bloc ''S21.G00.06.010'',
           etablissements = None\<rparr>\<rparr>"

text \<open>The branch for \<open>S21.G00.11\<close>: the company and its list are created when
  missing, then the new establishment is pushed.\<close>

definition processEtablissement :: "Bloc \<Rightarrow> Declaration \<Rightarrow> Declaration" where
  "processEtablissement bloc declaration =
     (let ent = (case entreprise declaration of
                   None \<Rightarrow> emptyEntreprise\<lparr>etablissements := Some []\<rparr>
                 | Some e \<Rightarrow>
                     (case etablissements e of
                        None \<Rightarrow> e\<lparr>etablissements := Some []\<rparr>
                      | Some es \<Rightarrow> e));
          newEtablissement =
            \<lparr>nic = bloc ''S21.G00.11.001'',
             countryCode = bloc ''S21.G00.11.015'',
             individus = []\<rparr>
      in declaration
           \<lparr>entreprise := Some (ent
              \<lparr>etablissements :=
                 Some ((case etablissements ent of None \<Rightarrow> [] | Some es \<Rightarrow> es)
                       @ [newEtablissement])\<rparr>)\<rparr>)"

text \<open>Replaces the establishment list of an existing company; used by the branches
  that mutate the last establishment, which run only when that list is non-empty.\<close>

definition withEtablissements :: "Etablissement list \<Rightarrow> Declaration \<Rightarrow> Declaration" where
  "withEtablissements es declaration =
     (case entreprise declaration of
        None \<Rightarrow> declaration
      | Some e \<Rightarrow> declaration\<lparr>entreprise := Some (e\<lparr>etablissements := Some es\<rparr>)\<rparr>)"

text \<open>The branch for \<open>S21.G00.30\<close>: the individual goes to the last establishment;
  without any establishment it is dropped (with a console warning).\<close>

definition processIndividu :: "Bloc \<Rightarrow> Declaration \<Rightarrow> Declaration" where
  "processIndividu bloc declaration =
     (let individu =
            \<lparr>identifiant = bloc ''S21.G00.30.001'',
             nomFamille = bloc ''S21.G00.30.002'',
             nomUsage = bloc ''S21.G00.30.003'',
             prenoms = bloc ''S21.G00.30.004'',
             sexe = bloc ''S21.G00.30.005'',
             pays = None,
             identifiantTechnique = bloc ''S21.G00.30.020'',
             contrats = [],
             versements = []\<rparr>;
          es = etablissementsOf declaration
      in if length es > 0
         then withEtablissements
                (updateLast (\<lambda>etab. etab\<lparr>individus := individus etab @ [individu]\<rparr>) es)
                declaration
         else declaration)"

text \<open>The branch for \<open>S21.G00.40\<close>: the contract goes to the last individual of the
  last establishment, when both exist.\<close>

definition processContrat :: "Bloc \<Rightarrow> Declaration \<Rightarrow> Declaration" where
  "processContrat bloc declaration =
     (let contrat =
            \<lparr>dateDebut = bloc ''S21.G00.40.001'',
             dateFin = None,
             statutConventionnel = bloc ''S21.G00.40.002'',
             c_pcsEse = bloc ''S21.G00.40.004'',
             complementPcsEse = bloc ''S21.G00.40.005'',
             c_nature = bloc ''S21.G00.40.007'',
             dispositifPolitique = bloc ''S21.G00.40.008'',
             numero = bloc ''S21.G00.40.009'',
             uniteMesure = bloc ''S21.G00.40.011'',
             quotiteCategorie = bloc ''S21.G00.40.012'',
             quotite = bloc ''S21.G00.40.013'',
             modaliteTemps = bloc ''S21.G00.40.014''\<rparr>;
          es = etablissementsOf declaration
      in if length es > 0
         then
           if length (individus (last es)) > 0
           then withEtablissements
                  (updateLast (\<lambda>etab. etab
                     \<lparr>individus := updateLast
                        (\<lambda>ind. ind\<lparr>contrats := contrats ind @ [contrat]\<rparr>)
                        (individus etab)\<rparr>) es)
                  declaration
           else declaration
         else declaration)"

text \<open>The branch for \<open>S21.G00.62\<close>: the end date is written into the last contract of
  the last individual of the last establishment, when all three exist.\<close>

definition processFinContrat :: "Bloc \<Rightarrow> Declaration \<Rightarrow> Declaration" where
  "processFinContrat bloc declaration =
     (let dateFinValue = bloc ''S21.G00.62.001'';
          es = etablissementsOf declaration
      in if length es > 0
         then
           if length (individus (last es)) > 0
           then
             if length (contrats (last (individus (last es)))) > 0
             then withEtablissements
                    (updateLast (\<lambda>etab. etab
                       \<lparr>individus := updateLast
                          (\<lambda>ind. ind
                             \<lparr>contrats := updateLast
                                (\<lambda>c. c\<lparr>dateFin := dateFinValue\<rparr>) (contrats ind)\<rparr>)
                          (individus etab)\<rparr>) es)
                    declaration
             else declaration
           else declaration
         else declaration)"

text \<open>The dispatch on the block code of the row at \<open>index\<close>.\<close>

definition processBloc :: "DSNRow list \<Rightarrow> nat \<Rightarrow> Declaration \<Rightarrow> Declaration" where
  "processBloc rs index declaration =
     (let bc = blocCode (rs ! index)
      in if bc = ''S20.G00.05'' then processHeader (getBloc rs index bc) declaration
         else if bc = ''S21.G00.06'' then processEntreprise (getBloc rs index bc) declaration
         else if bc = ''S21.G00.11'' then processEtablissement (getBloc rs index bc) declaration
         else if bc = ''S21.G00.30'' then processIndividu (getBloc rs index bc) declaration
         else if bc = ''S21.G00.40'' then processContrat (getBloc rs index bc) declaration
         else if bc = ''S21.G00.62'' then processFinContrat (getBloc rs index bc) declaration
         else declaration)"

text \<open>The loop that advances \<open>index\<close> past the current block: after each increment the
  sequence code compared against is reloaded from the row now under \<open>index\<close>.\<close>

function advance :: "DSNRow list \<Rightarrow> string \<Rightarrow> string \<Rightarrow> nat \<Rightarrow> nat" where
  "advance rs bc vc index =
     (if index < length rs \<and>
         blocCode (rs ! index) = bc \<and>
         geNum (parseInt (valueCode (rs ! index))) (parseInt vc)
      then advance rs bc
             (if index + 1 < length rs then valueCode (rs ! (index + 1)) else vc)
             (index + 1)
      else index)"
  by pat_completeness auto
termination
  by (relation "measure (\<lambda>(rs, bc, vc, index). length rs - index)") auto

declare advance.simps [simp del]

text \<open>The main loop of \<open>DSNDataReader\<close>.  It does not return when the inner loop
  leaves \<open>index\<close> where it is, which happens on a sequence code that \<open>parseInt\<close>
  cannot read; not returning is \<open>None\<close>.\<close>

partial_function (option) readerLoop :: "DSNRow list \<Rightarrow> nat \<Rightarrow> Declaration \<Rightarrow> Declaration option"
  where
  "readerLoop rs index declaration =
     (if index < length rs
      then readerLoop rs
             (advance rs (blocCode (rs ! index)) (valueCode (rs ! index)) index)
             (processBloc rs index declaration)
      else Some declaration)"

declare readerLoop.simps [code]

definition initialDeclaration :: Declaration where
  "initialDeclaration =
     \<lparr>d_nature = None, d_type = None, fraction = None, ordre = None, mois = None,
      dateFichier = None, champ = None, devise = None, entreprise = None,
      errors = [], validStatement = True\<rparr>"

definition DSNDataReader :: "DataDSN \<Rightarrow> Declaration option" where
  "DSNDataReader dataDSN = readerLoop (rows dataDSN) 0 initialDeclaration"

text \<open>\<open>parseDsnFile\<close>: \<open>Inl\<close> is the thrown error, \<open>None\<close> is not returning.\<close>

definition parseDsnFile :: "string \<Rightarrow> (error + Declaration) option" where
  "parseDsnFile content =
     (if \<not> hasRequiredBlocks content then Some (Inl MissingRequiredBlocks)
      else
        (case DSNDataReader (DSNFileReader content) of
           None \<Rightarrow> None
         | Some declaration \<Rightarrow>
             if \<not> validStatement declaration then Some (Inl StructuralErrors)
             else Some (Inr declaration)))"

section \<open>Reporting period and employee normalization\<close>

text \<open>\<open>extractReportingPeriod\<close>.  The format test is \<open>/^\d{6,8}$/\<close>.\<close>

definition extractReportingPeriod :: "Declaration \<Rightarrow> error + Period" where
  "extractReportingPeriod declaration =
     (case mois declaration of
        None \<Rightarrow> Inl MissingReportingPeriod
      | Some moisStr \<Rightarrow>
          if \<not> (6 \<le> length moisStr \<and> length moisStr \<le> 8 \<and> list_all isDigit moisStr)
          then Inl (InvalidPeriodFormat moisStr)
          else
            let yyyymm = (if length moisStr = 8 then substring moisStr 0 6 else moisStr);
                year = decimalValue (substring yyyymm 0 4);
                month = decimalValue (substring yyyymm 4 6) - 1
            in if year < 1900 \<or> year > 2100 \<or> month < 0 \<or> month > 11
               then Inl (InvalidPeriodValues moisStr year (month + 1))
               else Inr \<lparr>period_start = newDate year month 1,
                         period_end = newDate year (month + 1) 0\<rparr>)"

text \<open>\<open>parseGender\<close>: the code is left-padded with \<open>0\<close> to two characters.\<close>

definition padStart2 :: "string \<Rightarrow> string" where
  "padStart2 s = replicate (2 - length s) (CHR ''0'') @ s"

definition parseGender :: "string option \<Rightarrow> Gender option" where
  "parseGender sexeCode =
     (case sexeCode of
        None \<Rightarrow> None
      | Some code \<Rightarrow>
          if code = [] then None
          else
            let normalized = padStart2 code
            in if normalized = ''01'' then Some M
               else if normalized = ''02'' then Some F
               else None)"

text \<open>\<open>x || d\<close> on an optional string: \<open>d\<close> when \<open>x\<close> is undefined or empty.\<close>

definition orElse :: "string option \<Rightarrow> string \<Rightarrow> string" where
  "orElse x d = (case x of None \<Rightarrow> d | Some s \<Rightarrow> if s = [] then d else s)"

text \<open>\<open>individu.contrats[individu.contrats.length - 1]\<close>: undefined on an empty
  list.\<close>

definition lastContrat :: "Individu \<Rightarrow> Contrat option" where
  "lastContrat individu =
     (if contrats individu = [] then None else Some (last (contrats individu)))"

definition toEmployee :: "string \<Rightarrow> Individu \<Rightarrow> Employee" where
  "toEmployee establishmentCountryCode individu =
     (let contract = lastContrat individu
      in \<lparr>emp_id = orElse (identifiant individu) [],
          country = establishmentCountryCode,
          birthCountry = orElse (pays individu) [],
          gender = parseGender (sexe individu),
          contractStart =
            (case contract of
               None \<Rightarrow> None
             | Some c \<Rightarrow>
                 (case dateDebut c of
                    None \<Rightarrow> None
                  | Some s \<Rightarrow> if s = [] then None else parseDsnDate s)),
          contractEnd =
            (case contract of
               None \<Rightarrow> None
             | Some c \<Rightarrow>
                 (case dateFin c of
                    None \<Rightarrow> None
                  | Some s \<Rightarrow> if s = [] then None else parseDsnDate s)),
          pcsEse =
            (case contract of
               None \<Rightarrow> None
             | Some c \<Rightarrow>
                 (case c_pcsEse c of
                    None \<Rightarrow> None
                  | Some s \<Rightarrow> if s = [] then None else Some s))\<rparr>)"

text \<open>\<open>normalizeEmployees\<close>: two nested loops pushing onto \<open>employees\<close>.\<close>

definition normalizeEmployees :: "Declaration \<Rightarrow> Employee list" where
  "normalizeEmployees declaration =
     foldl (\<lambda>employees etablissement.
              foldl (\<lambda>employees individu.
                       employees @
                         [toEmployee (orElse (countryCode etablissement) ''unknown'') individu])
                employees (individus etablissement))
       [] (etablissementsOf declaration)"

section \<open>The question catalogue\<close>

text \<open>\<open>QuestionNode\<close>.  The objects built from the rows are told apart by the index of
  their data row, which the node carries as \<open>node_row\<close>; \<open>order\<close> is a number.\<close>

record QuestionAttrs =
  q_id :: string
  labelEn :: string
  labelFr :: "string option"
  q_content :: string
  parentId :: "string option"
  q_order :: rat
  q_unit :: "string option"
  enumEn :: "string list option"
  enumFr :: "string list option"

datatype QuestionNode =
  QuestionNode (node_row: nat) (attrs: QuestionAttrs) (children: "QuestionNode list")

text \<open>\<open>String.prototype.trim\<close>.\<close>

definition trim :: "string \<Rightarrow> string" where
  "trim s = rev (dropWhile isWhiteSpace (rev (dropWhile isWhiteSpace s)))"

definition parseCsvLine :: "string \<Rightarrow> string list" where
  "parseCsvLine line = (if trim line = [] then [] else map trim (splitOn (CHR '';'') line))"

text \<open>\<open>createRowObject\<close>: the row object maps each header to the value at its
  position; a header that occurs twice keeps the later value.\<close>

definition createRowObject :: "string list \<Rightarrow> string list \<Rightarrow> (string \<rightharpoonup> string)" where
  "createRowObject headers fieldValues =
     foldl (\<lambda>row index.
              row(headers ! index \<mapsto>
                  (if index < length fieldValues then fieldValues ! index else [])))
       Map.empty [0..<length headers]"

text \<open>\<open>x || undefined\<close> on a field of the row object.\<close>

definition nonEmpty :: "string option \<Rightarrow> string option" where
  "nonEmpty x = (case x of None \<Rightarrow> None | Some s \<Rightarrow> if s = [] then None else Some s)"

definition parseEnum :: "string option \<Rightarrow> string list option" where
  "parseEnum x =
     (case nonEmpty x of
        None \<Rightarrow> None
      | Some s \<Rightarrow> Some (filter (\<lambda>v. v \<noteq> []) (map trim (splitOn (CHR '','') s))))"

text \<open>\<open>createQuestionNode\<close>.  The columns \<open>ID\<close>, \<open>question label en\<close>, \<open>content\<close>
  and \<open>order\<close> are present in every row object, the header having been checked.
  \<open>parseInt(row["order"], 10) || 0\<close> is 0 when the field is not a number.\<close>

definition createQuestionNode :: "(string \<rightharpoonup> string) \<Rightarrow> QuestionAttrs" where
  "createQuestionNode row =
     \<lparr>q_id = orElse (row ''ID'') [],
      labelEn = orElse (row ''question label en'') [],
      labelFr = nonEmpty (row ''question label fr''),
      q_content = orElse (row ''content'') [],
      parentId = nonEmpty (row ''relatedQuestion ID''),
      q_order = (case parseIntRadix 10 (orElse (row ''order'') []) of
                   None \<Rightarrow> 0 | Some v \<Rightarrow> v),
      q_unit = nonEmpty (row ''unit''),
      enumEn = parseEnum (row ''enum en''),
      enumFr = parseEnum (row ''enum fr'')\<rparr>"

text \<open>Step 1: the data lines become flat questions; the first line whose field count
  differs from the header's raises.\<close>

fun parseDataLines :: "string list \<Rightarrow> nat \<Rightarrow> string list \<Rightarrow> error + QuestionAttrs list" where
  "parseDataLines headers rowIndex [] = Inr []"
| "parseDataLines headers rowIndex (line # dataLines) =
     (let fieldValues = parseCsvLine line
      in if length fieldValues \<noteq> length headers
         then Inl (RowFieldCount (rowIndex + 1) (length headers) (length fieldValues))
         else (case parseDataLines headers (rowIndex + 1) dataLines of
                 Inl e \<Rightarrow> Inl e
               | Inr qs \<Rightarrow> Inr (createQuestionNode (createRowObject headers fieldValues) # qs)))"

text \<open>Step 2, first pass: \<open>questionMap\<close> sends an id to the object of the last row
  with that id.\<close>

definition indexQuestions :: "QuestionAttrs list \<Rightarrow> (string \<rightharpoonup> nat)" where
  "indexQuestions flatQuestions =
     foldl (\<lambda>questionMap i. questionMap(q_id (flatQuestions ! i) \<mapsto> i))
       Map.empty [0..<length flatQuestions]"

text \<open>The parent object of a question: \<open>q.parentId && questionMap.has(q.parentId)\<close>.\<close>

definition parentOf :: "(string \<rightharpoonup> nat) \<Rightarrow> QuestionAttrs \<Rightarrow> nat option" where
  "parentOf questionMap q =
     (case parentId q of None \<Rightarrow> None | Some pid \<Rightarrow> questionMap pid)"

text \<open>Second pass: each question is pushed onto the \<open>children\<close> array of its parent or
  onto \<open>roots\<close>.  The arrays hold objects, here row indices.\<close>

record Hierarchy =
  childrenOf :: "nat \<Rightarrow> nat list"
  roots :: "nat list"

definition buildHierarchy :: "QuestionAttrs list \<Rightarrow> Hierarchy" where
  "buildHierarchy flatQuestions =
     (let questionMap = indexQuestions flatQuestions
      in foldl (\<lambda>h i.
           (case parentOf questionMap (flatQuestions ! i) of
              Some p \<Rightarrow> h\<lparr>childrenOf := (childrenOf h)(p := childrenOf h p @ [i])\<rparr>
            | None \<Rightarrow> h\<lparr>roots := roots h @ [i]\<rparr>))
         \<lparr>childrenOf = (\<lambda>p. []), roots = []\<rparr> [0..<length flatQuestions])"

text \<open>
  \<open>sortChildren\<close>: the children array of a node is sorted in place by
  \<open>a.order - b.order\<close> (\<open>Array.prototype.sort\<close> is stable), then each child is
  visited.  The model returns the node with its sorted subtree; the recursion is
  bounded by fuel, \<open>None\<close> meaning that it ran out.
\<close>

fun sortChildren :: "nat \<Rightarrow> QuestionAttrs list \<Rightarrow> (nat \<Rightarrow> nat list) \<Rightarrow> nat \<Rightarrow> QuestionNode option"
  where
  "sortChildren 0 flatQuestions cs node = None"
| "sortChildren (Suc fuel) flatQuestions cs node =
     (case those (map (sortChildren fuel flatQuestions cs)
                   (sort_key (\<lambda>i. q_order (flatQuestions ! i)) (cs node))) of
        None \<Rightarrow> None
      | Some sortedChildren \<Rightarrow>
          Some (QuestionNode node (flatQuestions ! node) sortedChildren))"

definition buildTree :: "QuestionAttrs list \<Rightarrow> QuestionNode list option" where
  "buildTree flatQuestions =
     (let h = buildHierarchy flatQuestions
      in those (map (sortChildren (length flatQuestions) flatQuestions (childrenOf h))
                 (roots h)))"

definition REQUIRED_CSV_FIELDS :: "string list" where
  "REQUIRED_CSV_FIELDS = [''ID'', ''question label en'', ''content'', ''order'']"

text \<open>\<open>loadQuestionsFromCsv\<close>, as a function of the content of the file.\<close>

definition loadQuestionsFromCsv :: "string \<Rightarrow> (error + QuestionNode list) option" where
  "loadQuestionsFromCsv fileContent =
     (let lines = filter (\<lambda>line. length line > 0) (map trim (splitOn (CHR 0x0A) fileContent))
      in if length lines < 2 then Some (Inl CsvTooShort)
         else
           let headers = parseCsvLine (hd lines); dataLines = tl lines
           in (case filter (\<lambda>field. field \<notin> set headers) REQUIRED_CSV_FIELDS of
                 field # _ \<Rightarrow> Some (Inl (MissingColumn field))
               | [] \<Rightarrow>
                   (case parseDataLines headers 0 dataLines of
                      Inl e \<Rightarrow> Some (Inl e)
                    | Inr flatQuestions \<Rightarrow> map_option Inr (buildTree flatQuestions))))"

section \<open>Answer computation\<close>

datatype Source = Computed | Manual

text \<open>\<open>Answer\<close>, without its explanation text.\<close>

record Answer =
  ans_value :: "rat option"
  source :: Source

type_synonym Answers = "string \<rightharpoonup> Answer"

datatype Attribute = AttrCountry | AttrGender | AttrPcsEse

text \<open>\<open>emp[attribute] as string\<close>.\<close>

definition attributeOf :: "Attribute \<Rightarrow> Employee \<Rightarrow> string option" where
  "attributeOf attribute emp =
     (case attribute of
        AttrCountry \<Rightarrow> Some (country emp)
      | AttrGender \<Rightarrow> (case gender emp of None \<Rightarrow> None | Some M \<Rightarrow> Some ''M'' | Some F \<Rightarrow> Some ''F'')
      | AttrPcsEse \<Rightarrow> pcsEse emp)"

text \<open>
  The groups are the own properties of an object created by \<open>{}\<close>, kept here in the
  order of their creation.  A key that names a property inherited from
  \<open>Object.prototype\<close> finds that property instead of a group, and \<open>push\<close> on it
  raises a \<open>TypeError\<close>.
\<close>

definition objectPrototypeKeys :: "string list" where
  "objectPrototypeKeys =
     [''constructor'', ''__defineGetter__'', ''__defineSetter__'', ''hasOwnProperty'',
      ''__lookupGetter__'', ''__lookupSetter__'', ''isPrototypeOf'',
      ''propertyIsEnumerable'', ''toString'', ''valueOf'', ''__proto__'',
      ''toLocaleString'']"

type_synonym Groups = "(string \<times> Employee list) list"

definition pushGroup :: "string \<Rightarrow> Employee \<Rightarrow> Groups \<Rightarrow> Groups" where
  "pushGroup key emp groups =
     (if key \<in> set (map fst groups)
      then map (\<lambda>(k, es). if k = key then (k, es @ [emp]) else (k, es)) groups
      else groups @ [(key, [emp])])"

fun groupByAttribute_loop :: "Attribute \<Rightarrow> Employee list \<Rightarrow> Groups \<Rightarrow> error + Groups" where
  "groupByAttribute_loop attribute [] groups = Inr groups"
| "groupByAttribute_loop attribute (emp # employees) groups =
     (let key = (case attributeOf attribute emp of
                   None \<Rightarrow> ''unknown''
                 | Some k \<Rightarrow> if k = [] \<or> trim k = [] then ''unknown'' else k)
      in if key \<in> set objectPrototypeKeys then Inl TypeError
         else groupByAttribute_loop attribute employees (pushGroup key emp groups))"

definition groupByAttribute :: "Employee list \<Rightarrow> Attribute \<Rightarrow> error + Groups" where
  "groupByAttribute employees attribute = groupByAttribute_loop attribute employees []"

text \<open>
  \<open>Object.entries\<close>: the keys that are array indices (canonical decimal numerals below
  \<open>2^32 - 1\<close>) come first, in ascending numeric order, then the other keys in the
  order of their creation.
\<close>

definition isArrayIndex :: "string \<Rightarrow> bool" where
  "isArrayIndex key \<longleftrightarrow>
     key \<noteq> [] \<and> list_all isDigit key \<and> (key = ''0'' \<or> hd key \<noteq> CHR ''0'') \<and>
     decimalValue key < 2 ^ 32 - 1"

definition objectEntries :: "Groups \<Rightarrow> Groups" where
  "objectEntries groups =
     sort_key (\<lambda>(k, es). decimalValue k) (filter (\<lambda>(k, es). isArrayIndex k) groups)
     @ filter (\<lambda>(k, es). \<not> isArrayIndex k) groups"

definition computed :: "rat \<Rightarrow> Answer" where
  "computed v = \<lparr>ans_value = Some v, source = Computed\<rparr>"

text \<open>The body shared by the table procedures that group by one attribute: for each
  bucket but \<open>"unknown"\<close> and each child of the table, the headcount at period end is
  stored for the child with the first id and the average headcount for the child
  with the second id, under \<open>`${child.id}_${bucket}`\<close>.\<close>

definition storeBucket ::
  "string \<Rightarrow> string \<Rightarrow> Period \<Rightarrow> QuestionNode list \<Rightarrow> Answers \<Rightarrow> string \<times> Employee list \<Rightarrow> Answers"
  where
  "storeBucket endId avgId period tableChildren answers entry =
     (case entry of (bucket, bucketEmployees) \<Rightarrow>
        foldl (\<lambda>answers child.
                 let answerId = q_id (attrs child) @ ''_'' @ bucket
                 in if q_id (attrs child) = endId
                    then answers(answerId \<mapsto>
                           computed (of_nat (computeHeadcountAtPeriodEnd bucketEmployees
                             (period_end period))))
                    else if q_id (attrs child) = avgId
                    then answers(answerId \<mapsto>
                           computed (computeAverageHeadcount bucketEmployees period))
                    else answers)
          answers tableChildren)"

definition processCountryTable ::
  "QuestionNode \<Rightarrow> Employee list \<Rightarrow> Period \<Rightarrow> Answers \<Rightarrow> error + Answers" where
  "processCountryTable tableNode employees period answers =
     (case groupByAttribute employees AttrCountry of
        Inl e \<Rightarrow> Inl e
      | Inr countryGroups \<Rightarrow>
          Inr (foldl (\<lambda>answers entry.
                        if fst entry = ''unknown'' then answers
                        else storeBucket ''S1-6_05'' ''S1-6_06'' period (children tableNode)
                               answers entry)
                 answers (objectEntries countryGroups)))"

text \<open>\<open>processContractGenderTable\<close> builds its own groups under the key
  \<open>`${gender}_${pcsEse}`\<close>, each part replaced by \<open>"unknown"\<close> when null or empty, and
  skips the key \<open>"unknown_unknown"\<close>.\<close>

definition compositeKey :: "Employee \<Rightarrow> string" where
  "compositeKey emp =
     (case gender emp of None \<Rightarrow> ''unknown'' | Some M \<Rightarrow> ''M'' | Some F \<Rightarrow> ''F'')
     @ ''_'' @ orElse (pcsEse emp) ''unknown''"

definition processContractGenderTable ::
  "QuestionNode \<Rightarrow> Employee list \<Rightarrow> Period \<Rightarrow> Answers \<Rightarrow> error + Answers" where
  "processContractGenderTable tableNode employees period answers =
     (let contractGenderGroups =
            foldl (\<lambda>groups emp. pushGroup (compositeKey emp) emp groups) [] employees
      in Inr (foldl (\<lambda>answers entry.
                       if fst entry = ''unknown_unknown'' then answers
                       else storeBucket ''K_718'' ''K_719'' period (children tableNode)
                              answers entry)
                answers (objectEntries contractGenderGroups)))"

definition processRegionTable ::
  "QuestionNode \<Rightarrow> Employee list \<Rightarrow> Period \<Rightarrow> Answers \<Rightarrow> error + Answers" where
  "processRegionTable tableNode employees period answers =
     (case groupByAttribute employees AttrCountry of
        Inl e \<Rightarrow> Inl e
      | Inr regionGroups \<Rightarrow>
          Inr (foldl (\<lambda>answers entry.
                        if fst entry = ''unknown'' then answers
                        else storeBucket ''S1-6_09'' ''S1-6_10'' period (children tableNode)
                               answers entry)
                 answers (objectEntries regionGroups)))"

definition processCategoryTable ::
  "QuestionNode \<Rightarrow> Employee list \<Rightarrow> Period \<Rightarrow> Answers \<Rightarrow> error + Answers" where
  "processCategoryTable tableNode employees period answers =
     (case groupByAttribute employees AttrPcsEse of
        Inl e \<Rightarrow> Inl e
      | Inr categoryGroups \<Rightarrow>
          Inr (foldl (\<lambda>answers entry.
                        if fst entry = ''unknown'' then answers
                        else storeBucket ''S1-6_19'' ''S1-6_20'' period (children tableNode)
                               answers entry)
                 answers (objectEntries categoryGroups)))"

definition processTableQuestion ::
  "QuestionNode \<Rightarrow> Period \<Rightarrow> Employee list \<Rightarrow> Answers \<Rightarrow> error + Answers" where
  "processTableQuestion tableNode period employees answers =
     (let tid = q_id (attrs tableNode)
      in if tid = ''S1-6_04'' then processCountryTable tableNode employees period answers
         else if tid = ''S1-6_07''
              then processContractGenderTable tableNode employees period answers
         else if tid = ''S1-6_08'' then processRegionTable tableNode employees period answers
         else if tid = ''S1-6_18'' then processCategoryTable tableNode employees period answers
         else Inr answers)"

definition processRegularQuestion ::
  "QuestionNode \<Rightarrow> Employee list \<Rightarrow> Period \<Rightarrow> Answers \<Rightarrow> Answers" where
  "processRegularQuestion node employees period answers =
     (let nid = q_id (attrs node)
      in if nid = ''S1-6_01'' \<or> nid = ''S1-6_13'' then answers
         else if nid \<in> set [''S1-6_14'', ''S1-6_15'', ''S1-6_16'', ''S1-6_17'']
              then answers(nid \<mapsto> \<lparr>ans_value = None, source = Manual\<rparr>)
         else if nid = ''S1-6_02''
              then answers(nid \<mapsto>
                     computed (of_nat (computeHeadcountAtPeriodEnd employees (period_end period))))
         else if nid = ''S1-6_03''
              then answers(nid \<mapsto> computed (computeAverageHeadcount employees period))
         else if nid = ''S1-6_11''
              then answers(nid \<mapsto> computed (of_nat (computeLeavers employees period)))
         else if nid = ''S1-6_12''
              then answers(nid \<mapsto> computed (of_int (computeTurnoverRate employees period)))
         else answers)"

text \<open>\<open>processQuestionNodes\<close>: each node is processed, then its children, in order; an
  error raised on the way ends the walk.\<close>

fun processQuestionNode :: "Period \<Rightarrow> Employee list \<Rightarrow> QuestionNode \<Rightarrow> error + Answers \<Rightarrow> error + Answers"
  where
  "processQuestionNode period employees (QuestionNode r a cs) state =
     (case state of
        Inl e \<Rightarrow> Inl e
      | Inr answers \<Rightarrow>
          foldl (\<lambda>st child. processQuestionNode period employees child st)
            (if q_content a = ''Table''
             then processTableQuestion (QuestionNode r a cs) period employees answers
             else Inr (processRegularQuestion (QuestionNode r a cs) employees period answers))
            cs)"

definition processQuestionNodes ::
  "Period \<Rightarrow> Employee list \<Rightarrow> QuestionNode list \<Rightarrow> Answers \<Rightarrow> error + Answers" where
  "processQuestionNodes period employees nodes answers =
     foldl (\<lambda>st node. processQuestionNode period employees node st) (Inr answers) nodes"

definition computeAnswers :: "Declaration \<Rightarrow> QuestionNode list \<Rightarrow> error + Answers" where
  "computeAnswers declaration questionTree =
     (case extractReportingPeriod declaration of
        Inl e \<Rightarrow> Inl e
      | Inr period \<Rightarrow>
          processQuestionNodes period (normalizeEmployees declaration) questionTree Map.empty)"

text \<open>The \<open>k\<close>-th ancestor of an object under a parent function.\<close>

fun ancestor :: "(nat \<Rightarrow> nat option) \<Rightarrow> nat \<Rightarrow> nat \<Rightarrow> nat option" where
  "ancestor par 0 j = Some j"
| "ancestor par (Suc k) j = (case par j of None \<Rightarrow> None | Some p \<Rightarrow> ancestor par k p)"

text \<open>Sibling order: ascending \<open>order\<close>, and the earlier row first on a tie.\<close>

definition precedes :: "QuestionNode \<Rightarrow> QuestionNode \<Rightarrow> bool" where
  "precedes x y \<longleftrightarrow>
     q_order (attrs x) < q_order (attrs y) \<or>
     (q_order (attrs x) = q_order (attrs y) \<and> node_row x < node_row y)"

fun childrenSorted :: "QuestionNode \<Rightarrow> bool" where
  "childrenSorted (QuestionNode r a cs) \<longleftrightarrow>
     sorted_wrt precedes cs \<and> list_all childrenSorted cs"

text \<open>
  The scenario of the repository's tests: November 2025 (day numbers 20393 to 20422), one
  employee in FR with an open contract from 1 October 2025 (day 20362), three employees
  in IR with open contracts from 1 January 2025 (day 20089), and a fourth in IR whose
  contract ends on 15 November 2025 (day 20407).
\<close>

definition november2025 :: Period where
  "november2025 = \<lparr>period_start = 20393, period_end = 20422\<rparr>"

definition sampleEmployees :: "Employee list" where
  "sampleEmployees =
     [\<lparr>emp_id = ''1'', country = ''FR'', birthCountry = [], gender = Some M,
       contractStart = Some 20362, contractEnd = None, pcsEse = Some ''3855''\<rparr>,
      \<lparr>emp_id = ''2'', country = ''IR'', birthCountry = [], gender = Some F,
       contractStart = Some 20089, contractEnd = None, pcsEse = Some ''6220''\<rparr>,
      \<lparr>emp_id = ''3'', country = ''IR'', birthCountry = [], gender = Some M,
       contractStart = Some 20089, contractEnd = None, pcsEse = None\<rparr>,
      \<lparr>emp_id = ''4'', country = ''IR'', birthCountry = [], gender = None,
       contractStart = Some 20089, contractEnd = None, pcsEse = None\<rparr>,
      \<lparr>emp_id = ''5'', country = ''IR'', birthCountry = [], gender = Some F,
       contractStart = Some 20089, contractEnd = Some 20407, pcsEse = Some ''6220''\<rparr>]"

text \<open>Sample rows: an establishment block followed by a company-identity block.\<close>

definition rowEtablissement :: DSNRow where
  "rowEtablissement =
     \<lparr>blocCode = ''S21.G00.11'', rubriqueCode = ''S21.G00.11.001'', valueCode = ''001'',
      row_value = ''00011''\<rparr>"

definition rowEntreprise :: DSNRow where
  "rowEntreprise =
     \<lparr>blocCode = ''S21.G00.06'', rubriqueCode = ''S21.G00.06.001'', valueCode = ''001'',
      row_value = ''123456789''\<rparr>"

text \<open>A sample text with header and identity lines but no line starting with
  \<open>S21.\<close>.\<close>

definition fileWithoutS21 :: string where
  "fileWithoutS21 =
     ''S10.G00.00.001,'' @ [CHR 0x27] @ ''x'' @ [CHR 0x27, CHR 0x0A] @
     ''S20.G00.05.005,'' @ [CHR 0x27] @ ''202511'' @ [CHR 0x27, CHR 0x0A]"

text \<open>A sample declaration: one establishment in FR with an individual holding two
  contracts and an individual holding none.\<close>

definition sampleDeclaration :: Declaration where
  "sampleDeclaration =
     initialDeclaration
       \<lparr>mois := Some ''202511'',
        entreprise := Some
          \<lparr>siren = Some ''123456789'', ent_nic = None, ent_country = None,
           etablissements = Some
             [\<lparr>nic = Some ''00011'', countryCode = Some ''FR'',
               individus =
                 [\<lparr>identifiant = Some ''185'', nomFamille = None, nomUsage = None,
                   prenoms = None, sexe = Some ''01'', pays = None,
                   identifiantTechnique = None,
                   contrats =
                     [\<lparr>dateDebut = Some ''20200101'', dateFin = Some ''20250930'',
                       statutConventionnel = None, c_pcsEse = Some ''6220'',
                       complementPcsEse = None, c_nature = None,
                       dispositifPolitique = None, numero = None, uniteMesure = None,
                       quotiteCategorie = None, quotite = None, modaliteTemps = None\<rparr>,
                      \<lparr>dateDebut = Some ''20251001'', dateFin = None,
                       statutConventionnel = None, c_pcsEse = Some ''3855'',
                       complementPcsEse = None, c_nature = None,
                       dispositifPolitique = None, numero = None, uniteMesure = None,
                       quotiteCategorie = None, quotite = None, modaliteTemps = None\<rparr>],
                   versements = []\<rparr>,
                  \<lparr>identifiant = Some ''285'', nomFamille = None, nomUsage = None,
                   prenoms = None, sexe = Some ''2'', pays = None,
                   identifiantTechnique = None, contrats = [], versements = []\<rparr>]\<rparr>]\<rparr>\<rparr>"

text \<open>A sample question tree: the gender/job-classification table with its
  end-of-period child, the global turnover question, and the job-classification table
  with its end-of-period child.\<close>

definition sampleTree :: "QuestionNode list" where
  "sampleTree =
     [QuestionNode 0
        \<lparr>q_id = ''S1-6_07'', labelEn = ''Employees by gender'', labelFr = None,
         q_content = ''Table'', parentId = None, q_order = 3, q_unit = None,
         enumEn = None, enumFr = None\<rparr>
        [QuestionNode 1
           \<lparr>q_id = ''K_718'', labelEn = ''Number of employees'', labelFr = None,
            q_content = ''number'', parentId = Some ''S1-6_07'', q_order = 0, q_unit = None,
            enumEn = None, enumFr = None\<rparr> []],
      QuestionNode 2
        \<lparr>q_id = ''S1-6_12'', labelEn = ''Turnover rate'', labelFr = None,
         q_content = ''number'', parentId = None, q_order = 4, q_unit = None,
         enumEn = None, enumFr = None\<rparr> [],
      QuestionNode 3
        \<lparr>q_id = ''S1-6_18'', labelEn = ''Employees by category'', labelFr = None,
         q_content = ''Table'', parentId = None, q_order = 5, q_unit = None,
         enumEn = None, enumFr = None\<rparr>
        [QuestionNode 4
           \<lparr>q_id = ''S1-6_19'', labelEn = ''Number of employees'', labelFr = None,
            q_content = ''number'', parentId = Some ''S1-6_18'', q_order = 0, q_unit = None,
            enumEn = None, enumFr = None\<rparr> []]]"

text \<open>The keys under which \<open>computeAnswers\<close> can store an answer: the ids of the
  global and manual questions, and \<open>`${childId}_${bucket}`\<close> for the metric ids of the
  tables, with the one bucket each table skips left out.\<close>

definition answerKey :: "string \<Rightarrow> bool" where
  "answerKey key \<longleftrightarrow>
     key \<in> set [''S1-6_02'', ''S1-6_03'', ''S1-6_11'', ''S1-6_12'',
                ''S1-6_14'', ''S1-6_15'', ''S1-6_16'', ''S1-6_17'']
     \<or> (\<exists>childId bucket. key = childId @ ''_'' @ bucket \<and>
           childId \<in> set [''S1-6_05'', ''S1-6_06'', ''S1-6_09'', ''S1-6_10'',
                           ''S1-6_19'', ''S1-6_20''] \<and>
           bucket \<noteq> ''unknown'')
     \<or> (\<exists>childId bucket. key = childId @ ''_'' @ bucket \<and>
           childId \<in> set [''K_718'', ''K_719''] \<and>
           bucket \<noteq> ''unknown_unknown'')"

text \<open>The invariant of the walk: every key of the answer map is an answer key.\<close>

definition keysOk :: "Answers \<Rightarrow> bool" where
  "keysOk answers \<longleftrightarrow> (\<forall>key a. answers key = Some a \<longrightarrow> answerKey key)"

definition stateOk :: "error + Answers \<Rightarrow> bool" where
  "stateOk st = (case st of Inl e \<Rightarrow> True | Inr answers \<Rightarrow> keysOk answers)"

text \<open>A sample catalogue: two top-level questions, the one with the larger order
  first, and three children of the second, two of them with equal order.\<close>

definition sampleCsv :: string where
  "sampleCsv =
     ''ID;question label en;content;order;relatedQuestion ID'' @ [CHR 0x0A] @
     ''B;second;number;2;'' @ [CHR 0x0A] @
     ''A;first;Table;1;'' @ [CHR 0x0A] @
     ''C;third child;number;5;A'' @ [CHR 0x0A] @
     ''D;first child;number;3;A'' @ [CHR 0x0A] @
     ''E;second child;number;3;A'' @ [CHR 0x0A]"

section \<open>Properties of the metric strategies\<close>

lemma toFixed1_half: "toFixed1 (of_nat n / 2) = of_nat n / 2"
proof -
  have "\<lfloor>(of_nat n :: rat) / 2 * 10 + 1 / 2\<rfloor> = 5 * int n"
    by (rule floor_unique) simp_all
  then show ?thesis
    by (simp add: toFixed1_def)
qed

lemma average_as_counts:
  "computeAverageHeadcount employees period =
     (of_nat (computeHeadcountAtPeriodStart employees (period_start period)) +
      of_nat (computeHeadcountAtPeriodStart employees (period_end period))) / 2"
proof -
  have "computeAverageHeadcount employees period =
      toFixed1 (of_nat (computeHeadcountAtPeriodStart employees (period_start period) +
        computeHeadcountAtPeriodStart employees (period_end period)) / 2)"
    unfolding computeAverageHeadcount_def computeHeadcountAtPeriodStart_def Let_def
    by (simp add: activeAtStart_def [abs_def])
  then show ?thesis
    by (simp only: toFixed1_half) simp
qed

lemma activeAtEnd_iff:
  "activeAtEnd d emp \<longleftrightarrow>
     (\<exists>s. contractStart emp = Some s \<and> s \<le> d) \<and>
     (contractEnd emp = None \<or> (\<exists>e. contractEnd emp = Some e \<and> e > d))"
  by (auto simp: activeAtEnd_def split: option.splits)

lemma activeAtStart_iff:
  "activeAtStart d emp \<longleftrightarrow>
     (\<exists>s. contractStart emp = Some s \<and> s \<le> d) \<and>
     (contractEnd emp = None \<or> (\<exists>e. contractEnd emp = Some e \<and> e \<ge> d))"
  by (auto simp: activeAtStart_def split: option.splits)

lemma end_count_spec:
  "computeHeadcountAtPeriodEnd employees d =
     length (filter (\<lambda>emp. (\<exists>s. contractStart emp = Some s \<and> s \<le> d) \<and>
        (contractEnd emp = None \<or> (\<exists>e. contractEnd emp = Some e \<and> e > d))) employees)"
  by (simp add: computeHeadcountAtPeriodEnd_def activeAtEnd_iff [abs_def])

lemma start_count_spec:
  "computeHeadcountAtPeriodStart employees d =
     length (filter (\<lambda>emp. (\<exists>s. contractStart emp = Some s \<and> s \<le> d) \<and>
        (contractEnd emp = None \<or> (\<exists>e. contractEnd emp = Some e \<and> e \<ge> d))) employees)"
  by (simp add: computeHeadcountAtPeriodStart_def activeAtStart_iff [abs_def])

lemma start_eq_end_plus_boundary:
  "computeHeadcountAtPeriodStart employees d =
     computeHeadcountAtPeriodEnd employees d +
     length (filter (\<lambda>emp. (\<exists>s. contractStart emp = Some s \<and> s \<le> d) \<and>
        contractEnd emp = Some d) employees)"
  unfolding computeHeadcountAtPeriodStart_def computeHeadcountAtPeriodEnd_def
proof (induction employees)
  case Nil
  show ?case by simp
next
  case (Cons emp employees)
  show ?case
  proof (cases "contractStart emp")
    case None
    with Cons show ?thesis
      by (simp add: activeAtStart_def activeAtEnd_def)
  next
    case (Some s)
    with Cons show ?thesis
      by (cases "contractEnd emp") (auto simp: activeAtStart_def activeAtEnd_def)
  qed
qed

text \<open>
  Claim C1 as stated: the average headcount is the mean of
  \<open>computeHeadcountAtPeriodStart\<close> at the period start and
  \<open>computeHeadcountAtPeriodEnd\<close> at the period end, to one decimal.  It fails for an
  employee whose contract ends on the last day of the period: the average counts that
  employee at the end date, \<open>computeHeadcountAtPeriodEnd\<close> does not.  Period: November
  2025 (day numbers 20393 to 20422); contract from 1 January 2025 to 30 November 2025.
\<close>

theorem C1_average_counterexample:
  "computeAverageHeadcount
     [\<lparr>emp_id = ''1'', country = ''FR'', birthCountry = '''', gender = Some M,
       contractStart = Some 20089, contractEnd = Some 20422, pcsEse = None\<rparr>]
     \<lparr>period_start = 20393, period_end = 20422\<rparr> = 1
   \<and> toFixed1 ((of_nat (computeHeadcountAtPeriodStart
     [\<lparr>emp_id = ''1'', country = ''FR'', birthCountry = '''', gender = Some M,
       contractStart = Some 20089, contractEnd = Some 20422, pcsEse = None\<rparr>] 20393)
     + of_nat (computeHeadcountAtPeriodEnd
     [\<lparr>emp_id = ''1'', country = ''FR'', birthCountry = '''', gender = Some M,
       contractStart = Some 20089, contractEnd = Some 20422, pcsEse = None\<rparr>] 20422)) / 2)
     = 1 / 2"
  by code_simp

text \<open>
  Claim C1, amended: for every employee list and period, the average headcount is exactly
  the mean of two counts taken with one and the same predicate, that of
  \<open>computeHeadcountAtPeriodStart\<close> (contract start non-null and on or before the date,
  contract end null or on or after the date), once at the period start and once at the
  period end; the mean is a multiple of one half, so rounding to one decimal place
  changes nothing.  The count at the period end is the value of
  \<open>computeHeadcountAtPeriodEnd\<close> plus the number of employees whose contract started on
  or before the end date and ends exactly on it.
\<close>

theorem C1_average_amended:
  "computeAverageHeadcount employees period =
     (of_nat (computeHeadcountAtPeriodStart employees (period_start period)) +
      of_nat (computeHeadcountAtPeriodStart employees (period_end period))) / 2
   \<and> computeHeadcountAtPeriodStart employees (period_end period) =
     computeHeadcountAtPeriodEnd employees (period_end period) +
     length (filter (\<lambda>emp. (\<exists>s. contractStart emp = Some s \<and> s \<le> period_end period) \<and>
        contractEnd emp = Some (period_end period)) employees)"
  by (simp add: average_as_counts start_eq_end_plus_boundary)

text \<open>
  Claim C2 as stated: the two headcount strategies evaluate the same predicate and return
  equal values on the same list and date.  It fails for an employee whose contract ends
  on that date: the start strategy keeps the employee (\<open>>=\<close>), the end strategy drops
  the employee (\<open><=\<close> rejects).
\<close>

theorem C2_same_predicate_counterexample:
  "computeHeadcountAtPeriodStart
     [\<lparr>emp_id = ''1'', country = ''FR'', birthCountry = '''', gender = Some F,
       contractStart = Some 20089, contractEnd = Some 20393, pcsEse = None\<rparr>] 20393 = 1
   \<and> computeHeadcountAtPeriodEnd
     [\<lparr>emp_id = ''1'', country = ''FR'', birthCountry = '''', gender = Some F,
       contractStart = Some 20089, contractEnd = Some 20393, pcsEse = None\<rparr>] 20393 = 0"
  by (simp add: computeHeadcountAtPeriodStart_def computeHeadcountAtPeriodEnd_def
      activeAtStart_def activeAtEnd_def)

text \<open>
  Claim C2, amended: for every employee list and date \<open>d\<close>,
  \<open>computeHeadcountAtPeriodEnd\<close> counts the employees whose contract start is non-null
  and \<open>\<le> d\<close> and whose contract end is null or \<open>> d\<close>;
  \<open>computeHeadcountAtPeriodStart\<close> counts those whose contract start is non-null and
  \<open>\<le> d\<close> and whose contract end is null or \<open>\<ge> d\<close>.  The start count is the end count
  plus the number of employees whose contract started on or before \<open>d\<close> and ends
  exactly on \<open>d\<close>, so the two agree exactly when the list has no such employee.
\<close>

theorem C2_headcount_predicates_amended:
  "computeHeadcountAtPeriodEnd employees d =
     length (filter (\<lambda>emp. (\<exists>s. contractStart emp = Some s \<and> s \<le> d) \<and>
        (contractEnd emp = None \<or> (\<exists>e. contractEnd emp = Some e \<and> e > d))) employees)
   \<and> computeHeadcountAtPeriodStart employees d =
     length (filter (\<lambda>emp. (\<exists>s. contractStart emp = Some s \<and> s \<le> d) \<and>
        (contractEnd emp = None \<or> (\<exists>e. contractEnd emp = Some e \<and> e \<ge> d))) employees)
   \<and> computeHeadcountAtPeriodStart employees d =
     computeHeadcountAtPeriodEnd employees d +
     length (filter (\<lambda>emp. (\<exists>s. contractStart emp = Some s \<and> s \<le> d) \<and>
        contractEnd emp = Some d) employees)"
  using end_count_spec [of employees d] start_count_spec [of employees d]
    start_eq_end_plus_boundary [of employees d]
  by blast

subsection \<open>Floating-point rounding\<close>

lemma bitLength_bounds:
  "0 < n \<Longrightarrow> 2 ^ (bitLength n - 1) \<le> n \<and> n < 2 ^ bitLength n"
proof (induction n rule: bitLength.induct)
  case (1 n)
  then have pos: "0 < n" by simp
  show ?case
  proof (cases "n div 2 = 0")
    case True
    with pos have "n = 1" by presburger
    then show ?thesis
      by (simp add: bitLength.simps [of 1] bitLength.simps [of 0])
  next
    case False
    with pos have m: "0 < n div 2" by presburger
    from "1.IH" pos m have ih: "2 ^ (bitLength (n div 2) - 1) \<le> n div 2"
      "n div 2 < 2 ^ bitLength (n div 2)"
      by simp_all
    have bl: "bitLength n = Suc (bitLength (n div 2))"
      using pos by (simp add: bitLength.simps [of n])
    have bpos: "0 < bitLength (n div 2)"
      using m by (simp add: bitLength.simps [of "n div 2"])
    then have "(2::int) ^ bitLength (n div 2) = 2 * 2 ^ (bitLength (n div 2) - 1)"
      by (cases "bitLength (n div 2)") simp_all
    with ih have lo: "2 ^ bitLength (n div 2) \<le> n"
      by presburger
    from ih have "n div 2 + 1 \<le> 2 ^ bitLength (n div 2)" by simp
    then have hi: "n < 2 * 2 ^ bitLength (n div 2)" by presburger
    from lo hi bl show ?thesis by simp
  qed
qed

lemma ilog2_bounds:
  assumes "0 < a"
  shows "2 powi (ilog2 a) \<le> a" and "a < 2 powi (ilog2 a + 1)"
proof -
  obtain p q where pq: "quotient_of a = (p, q)" by (cases "quotient_of a")
  then have q: "0 < q" and a: "a = of_int p / of_int q"
    by (simp_all add: quotient_of_denom_pos quotient_of_div)
  with assms have p: "0 < p"
    by (simp add: zero_less_divide_iff)
  define k where "k = int (bitLength p) - int (bitLength q)"
  have il: "ilog2 a = (if 2 powi k \<le> a then k else k - 1)"
    by (simp add: ilog2_def pq k_def Let_def)
  have bp: "0 < bitLength p" and bq: "0 < bitLength q"
    using p q by (simp_all add: bitLength.simps [of p] bitLength.simps [of q])
  have plo: "(2::rat) ^ (bitLength p - 1) \<le> of_int p" and phi: "of_int p < (2::rat) ^ bitLength p"
    using bitLength_bounds [OF p]
    by (metis of_int_le_iff of_int_numeral of_int_power, metis of_int_less_iff of_int_numeral of_int_power)
  have qlo: "(2::rat) ^ (bitLength q - 1) \<le> of_int q" and qhi: "of_int q < (2::rat) ^ bitLength q"
    using bitLength_bounds [OF q]
    by (metis of_int_le_iff of_int_numeral of_int_power, metis of_int_less_iff of_int_numeral of_int_power)
  have qpos: "(0::rat) < of_int q" using q by simp
  have "a * of_int q = of_int p" using a qpos by simp
  have up: "a < 2 powi (k + 1)"
  proof -
    have "2 powi (k + 1) = (2::rat) ^ bitLength p / 2 ^ (bitLength q - 1)"
    proof -
      have "k + 1 = int (bitLength p) - int (bitLength q - 1)"
        using bq by (simp add: k_def)
      then show ?thesis
        by (simp add: power_int_diff)
    qed
    moreover have "of_int p / of_int q < (2::rat) ^ bitLength p / 2 ^ (bitLength q - 1)"
      using phi qlo qpos p by (intro frac_less) simp_all
    ultimately show ?thesis using a by simp
  qed
  have low: "2 powi (k - 1) < a"
  proof -
    have "2 powi (k - 1) = (2::rat) ^ (bitLength p - 1) / 2 ^ bitLength q"
    proof -
      have "k - 1 = int (bitLength p - 1) - int (bitLength q)"
        using bp by (simp add: k_def)
      then show ?thesis
        by (simp add: power_int_diff)
    qed
    moreover have "(2::rat) ^ (bitLength p - 1) / 2 ^ bitLength q < of_int p / of_int q"
      using plo qhi qpos p by (intro frac_less2) simp_all
    ultimately show ?thesis using a by simp
  qed
  show "2 powi (ilog2 a) \<le> a"
    using il low by (simp split: if_splits)
  show "a < 2 powi (ilog2 a + 1)"
    using il up by (simp split: if_splits)
qed

lemma ilog2_unique:
  assumes "2 powi k \<le> a" "a < 2 powi (k + 1)"
  shows "ilog2 a = k"
proof -
  have pos: "0 < a"
    using assms(1) zero_less_power_int [of "2::rat" k] by linarith
  note b = ilog2_bounds [OF pos]
  have "(2::rat) powi (ilog2 a) < 2 powi (k + 1)"
    using b(1) assms(2) by linarith
  then have "ilog2 a < k + 1"
    by (metis linorder_not_less one_less_numeral_iff power_int_increasing order_less_imp_le semiring_norm(76) not_le)
  moreover have "(2::rat) powi k < 2 powi (ilog2 a + 1)"
    using b(2) assms(1) by linarith
  then have "k < ilog2 a + 1"
    by (metis linorder_not_less one_less_numeral_iff power_int_increasing order_less_imp_le semiring_norm(76) not_le)
  ultimately show ?thesis by simp
qed

lemma roundHalfEven_error: "\<bar>of_int (roundHalfEven y) - y\<bar> \<le> 1 / 2"
proof -
  have *: "\<bar>of_int (if y - of_int f < 1 / 2 then f
        else if 1 / 2 < y - of_int f then f + 1
        else if even f then f else f + 1) - y\<bar> \<le> 1 / 2"
    if "of_int f \<le> y" "y < of_int f + 1" for f :: int
    using that by (auto simp: abs_if)
  have "of_int \<lfloor>y\<rfloor> \<le> y" "y < of_int \<lfloor>y\<rfloor> + 1"
    by linarith+
  from * [OF this] show ?thesis
    by (simp add: roundHalfEven_def Let_def)
qed


lemma powi_less_imp_less:
  assumes "(2::rat) powi m < 2 powi n"
  shows "m < n"
proof (rule ccontr)
  assume "\<not> m < n"
  then have "n \<le> m" by simp
  then have "(2::rat) powi n \<le> 2 powi m"
    by (intro power_int_increasing) simp_all
  with assms show False by simp
qed

lemma binary64_normal:
  assumes lo: "2 powi (- 1022) \<le> a" and hi: "a < 2 powi 1023"
  shows "\<bar>binary64 a - a\<bar> \<le> a / 2 ^ 53"
proof -
  have pos: "0 < a"
    using lo zero_less_power_int [of "2::rat" "- 1022"] by linarith
  note b = ilog2_bounds [OF pos]
  define e where "e = ilog2 a - 52"
  have "(2::rat) powi (- 1022) < 2 powi (ilog2 a + 1)"
    using lo b(2) by linarith
  then have "- 1022 < ilog2 a + 1" by (rule powi_less_imp_less)
  then have emax: "max (ilog2 a - 52) (- 1074) = e"
    by (simp add: e_def)
  define y where "y = a / 2 powi e"
  define m where "m = roundHalfEven y"
  define r where "r = of_int m * (2::rat) powi e"
  have pe: "(0::rat) < 2 powi e" by simp
  have ay: "a = y * 2 powi e"
    by (simp add: y_def)
  have "r - a = (of_int m - y) * 2 powi e"
    by (simp add: r_def ay algebra_simps)
  then have "\<bar>r - a\<bar> = \<bar>of_int m - y\<bar> * 2 powi e"
    by (simp add: abs_mult)
  also have "\<dots> \<le> 1 / 2 * 2 powi e"
    using roundHalfEven_error [of y] pe
    by (intro mult_right_mono) (simp_all add: m_def)
  also have "(2::rat) powi e = 2 powi (ilog2 a) / 2 ^ 52"
    by (simp add: e_def power_int_diff)
  also have "1 / 2 * (2 powi (ilog2 a) / 2 ^ 52) \<le> 1 / 2 * (a / 2 ^ 52)"
    using b(1) by (intro mult_left_mono divide_right_mono) simp_all
  finally have err: "\<bar>r - a\<bar> \<le> a / 2 ^ 53"
    by simp
  have "r \<le> a + a / 2 ^ 53"
    using err by linarith
  also have "\<dots> \<le> a * 2" using pos by simp
  also have "\<dots> < 2 powi 1023 * 2" using hi by simp
  finally have "r < infinity"
    by (simp add: infinity_def)
  then have "binary64 a = r"
    using pos by (simp add: binary64_def emax Let_def y_def [symmetric] m_def [symmetric]
        r_def [symmetric])
  with err show ?thesis by simp
qed

lemma binary64_zero: "binary64 0 = 0"
  by (simp add: binary64_def)

lemma round_percent:
  fixes L S :: nat
  assumes S: "0 < S" and L: "L < 2 ^ 32" and S32: "S < 2 ^ 32"
  shows "\<bar>of_int (mathRound (binary64 (binary64 (of_nat L / of_nat S) * 100)))
           - 100 * of_nat L / (of_nat S :: rat)\<bar> \<le> 1 / 2"
proof (cases "L = 0")
  case True
  have "\<lfloor>1 / 2 :: rat\<rfloor> = 0"
    by (rule floor_unique) simp_all
  with True show ?thesis
    by (simp add: binary64_zero mathRound_def)
next
  case False
  define l :: rat where "l = of_nat L"
  define s :: rat where "s = of_nat S"
  have lpos: "1 \<le> l" and spos: "1 \<le> s"
    using False S by (simp_all add: l_def s_def Suc_le_eq)
  have l32: "l < 2 ^ 32" and s32: "s < 2 ^ 32"
    using L S32 unfolding l_def s_def
    by (metis of_nat_less_iff of_nat_numeral of_nat_power)+
  define a1 where "a1 = l / s"
  define x1 where "x1 = binary64 a1"
  define x2 where "x2 = binary64 (x1 * 100)"
  define q where "q = 100 * l / s"
  have a1pos: "0 < a1" using lpos spos by (simp add: a1_def)
  have a1lo: "1 / 2 ^ 32 \<le> a1"
  proof -
    have "1 / 2 ^ 32 \<le> 1 / s" using s32 spos by (simp add: field_simps)
    also have "\<dots> \<le> l / s" using lpos spos by (simp add: divide_right_mono)
    finally show ?thesis by (simp add: a1_def)
  qed
  have a1hi: "a1 < 2 ^ 32"
  proof -
    have "l / s \<le> l" using lpos spos by (simp add: field_simps mult_le_cancel_left1)
    with l32 show ?thesis by (simp add: a1_def)
  qed
  have e1: "\<bar>x1 - a1\<bar> \<le> a1 / 2 ^ 53"
    unfolding x1_def
  proof (rule binary64_normal)
    have "(2::rat) powi (- 1022) \<le> 1 / 2 ^ 32"
      by (simp add: power_int_minus_divide)
    with a1lo show "2 powi (- 1022) \<le> a1" by linarith
    have "(2::rat) ^ 32 \<le> 2 powi 1023" by simp
    with a1hi show "a1 < 2 powi 1023" by linarith
  qed
  moreover have "a1 / 2 ^ 53 \<le> a1 / 2"
    using a1pos by simp
  ultimately have x1lo: "a1 / 2 \<le> x1" and x1hi: "x1 \<le> a1 + a1 / 2 ^ 53"
    by linarith+
  have e2: "\<bar>x2 - x1 * 100\<bar> \<le> x1 * 100 / 2 ^ 53"
    unfolding x2_def
  proof (rule binary64_normal)
    have "(2::rat) powi (- 1022) \<le> 1 / 2 ^ 32 / 2 * 100"
      by (simp add: power_int_minus_divide)
    also have "\<dots> \<le> x1 * 100" using a1lo x1lo by simp
    finally show "2 powi (- 1022) \<le> x1 * 100" .
    have "x1 * 100 \<le> (a1 * 2) * 100" using x1hi a1pos by simp
    also have "\<dots> < (2 ^ 32 * 2) * 100" using a1hi by simp
    also have "\<dots> \<le> (2::rat) powi 1023" by simp
    finally show "x1 * 100 < 2 powi 1023" .
  qed
  have qa: "q = a1 * 100" by (simp add: q_def a1_def)
  have "\<bar>x2 - q\<bar> \<le> \<bar>x2 - x1 * 100\<bar> + \<bar>x1 * 100 - a1 * 100\<bar>"
    unfolding qa by linarith
  also have "\<bar>x1 * 100 - a1 * 100\<bar> = \<bar>x1 - a1\<bar> * 100"
    by (simp add: abs_if)
  also have "\<bar>x2 - x1 * 100\<bar> + \<bar>x1 - a1\<bar> * 100
      \<le> (a1 + a1 / 2 ^ 53) * 100 / 2 ^ 53 + a1 / 2 ^ 53 * 100"
    using e1 e2 x1hi by (intro add_mono) simp_all
  also have "\<dots> \<le> a1 * 300 / 2 ^ 53"
    using a1pos by simp
  finally have d: "\<bar>x2 - q\<bar> \<le> a1 * 300 / 2 ^ 53" .
  have "a1 * 300 / 2 ^ 53 = (l * 600 / 2 ^ 53) / (2 * s)"
    using spos by (simp add: a1_def)
  also have "\<dots> < 1 / (2 * s)"
    using l32 spos by (intro divide_strict_right_mono) simp_all
  finally have small: "\<bar>x2 - q\<bar> < 1 / (2 * s)"
    using d by linarith
  define r where "r = mathRound x2"
  have r1: "of_int r \<le> x2 + 1 / 2" and r2: "x2 + 1 / 2 < of_int r + 1"
    unfolding r_def mathRound_def by linarith+
  have qs: "q * (2 * s) = of_int (200 * int L)"
    using spos by (simp add: q_def l_def)
  have s2: "0 < 2 * s" using spos by simp
  have hiS: "(of_int r + 1 / 2) * (2 * s) = of_int ((2 * r + 1) * int S)"
    by (simp add: s_def algebra_simps)
  have loS: "(of_int r - 1 / 2) * (2 * s) = of_int ((2 * r - 1) * int S)"
    by (simp add: s_def algebra_simps)
  have unit: "1 / (2 * s) * (2 * s) = 1"
    using s2 by simp
  have up: "q \<le> of_int r + 1 / 2"
  proof (rule ccontr)
    assume "\<not> q \<le> of_int r + 1 / 2"
    then have "of_int r + 1 / 2 < q" by simp
    then have "(of_int r + 1 / 2) * (2 * s) < q * (2 * s)"
      using s2 by (simp only: mult_less_cancel_right_pos)
    then have "of_int ((2 * r + 1) * int S) < (of_int (200 * int L) :: rat)"
      by (simp only: hiS qs)
    then have "(2 * r + 1) * int S < 200 * int L"
      by (simp only: of_int_less_iff)
    then have "(2 * r + 1) * int S + 1 \<le> 200 * int L" by simp
    then have "(of_int ((2 * r + 1) * int S + 1) :: rat) \<le> of_int (200 * int L)"
      by (simp only: of_int_le_iff)
    then have "(of_int r + 1 / 2) * (2 * s) + 1 / (2 * s) * (2 * s) \<le> q * (2 * s)"
      by (simp only: hiS qs unit of_int_add of_int_1)
    then have "((of_int r + 1 / 2) + 1 / (2 * s)) * (2 * s) \<le> q * (2 * s)"
      by (simp only: distrib_right)
    then have "(of_int r + 1 / 2) + 1 / (2 * s) \<le> q"
      using s2 by (simp only: mult_le_cancel_right_pos)
    with r2 small show False
      by (simp add: abs_less_iff)
  qed
  have down: "of_int r - 1 / 2 \<le> q"
  proof (rule ccontr)
    assume "\<not> of_int r - 1 / 2 \<le> q"
    then have "q < of_int r - 1 / 2" by simp
    then have "q * (2 * s) < (of_int r - 1 / 2) * (2 * s)"
      using s2 by (simp only: mult_less_cancel_right_pos)
    then have "(of_int (200 * int L) :: rat) < of_int ((2 * r - 1) * int S)"
      by (simp only: loS qs)
    then have "200 * int L < (2 * r - 1) * int S"
      by (simp only: of_int_less_iff)
    then have "200 * int L + 1 \<le> (2 * r - 1) * int S" by simp
    then have "(of_int (200 * int L + 1) :: rat) \<le> of_int ((2 * r - 1) * int S)"
      by (simp only: of_int_le_iff)
    then have "q * (2 * s) + 1 / (2 * s) * (2 * s) \<le> (of_int r - 1 / 2) * (2 * s)"
      by (simp only: loS qs unit of_int_add of_int_1)
    then have "(q + 1 / (2 * s)) * (2 * s) \<le> (of_int r - 1 / 2) * (2 * s)"
      by (simp only: distrib_right)
    then have "q + 1 / (2 * s) \<le> of_int r - 1 / 2"
      using s2 by (simp only: mult_le_cancel_right_pos)
    with r1 small show False
      by (simp add: abs_less_iff)
  qed
  from up down have "\<bar>of_int r - q\<bar> \<le> 1 / 2"
    by linarith
  then show ?thesis
    by (simp add: r_def x2_def x1_def a1_def q_def l_def s_def)
qed

lemma roundHalfEven_eval:
  assumes "of_int m - 1 / 2 < y" "y < of_int m + 1 / 2"
  shows "roundHalfEven y = m"
proof -
  have "\<lfloor>y\<rfloor> = m \<or> \<lfloor>y\<rfloor> = m - 1"
    using assms by (simp add: floor_eq_iff) linarith
  then show ?thesis
  proof
    assume f: "\<lfloor>y\<rfloor> = m"
    then have "of_int m \<le> y" by (metis of_int_floor_le)
    with assms f show ?thesis
      by (simp add: roundHalfEven_def Let_def)
  next
    assume f: "\<lfloor>y\<rfloor> = m - 1"
    then have "y < of_int m"
      by (metis floor_less_iff add_diff_cancel_right' less_add_one diff_add_cancel)
    with assms f show ?thesis
      by (simp add: roundHalfEven_def Let_def)
  qed
qed

lemma binary64_eval:
  assumes "2 powi k \<le> a" "a < 2 powi (k + 1)" "- 1022 \<le> k"
    and "of_int m - 1 / 2 < a / 2 powi (k - 52)" "a / 2 powi (k - 52) < of_int m + 1 / 2"
    and "of_int m * 2 powi (k - 52) < infinity"
  shows "binary64 a = of_int m * 2 powi (k - 52)"
proof -
  have pos: "0 < a"
    using assms(1) zero_less_power_int [of "2::rat" k] by linarith
  have k: "ilog2 a = k"
    using assms(1,2) by (rule ilog2_unique)
  have emax: "max (k - 52) (- 1074) = k - 52"
    using assms(3) by simp
  have m: "roundHalfEven (a / 2 powi (k - 52)) = m"
    using assms(4,5) by (rule roundHalfEven_eval)
  show ?thesis
    using pos assms(6) by (simp add: binary64_def Let_def k emax m)
qed

text \<open>A tie in exact arithmetic that the two roundings break downwards: 29 leavers
  for a headcount of 200 give 14, as \<open>Math.round((29 / 200) * 100)\<close> does.\<close>

lemma double_rounding_example:
  "binary64 (29 / 200) = 5224175567749775 / 2 ^ 55"
  "binary64 (5224175567749775 / 2 ^ 55 * 100) = 8162774324609023 / 2 ^ 49"
  "mathRound (binary64 (binary64 (29 / 200) * 100)) = 14"
proof -
  show a: "binary64 (29 / 200) = 5224175567749775 / 2 ^ 55"
    using binary64_eval [of "- 3" "29 / 200" 5224175567749775]
    by (simp add: infinity_def power_int_minus_divide)
  show b: "binary64 (5224175567749775 / 2 ^ 55 * 100) = 8162774324609023 / 2 ^ 49"
    using binary64_eval [of 3 "5224175567749775 / 2 ^ 55 * 100" 8162774324609023]
    by (simp add: infinity_def power_int_minus_divide)
  have "\<lfloor>8162774324609023 / 2 ^ 49 + 1 / 2 :: rat\<rfloor> = 14"
    by (rule floor_unique) simp_all
  then show "mathRound (binary64 (binary64 (29 / 200) * 100)) = 14"
    by (simp only: a b mathRound_def)
qed

text \<open>An integer below \<open>2^53\<close> in magnitude is its own double, so \<open>toNumber\<close> is the
  rounding to a double throughout.\<close>

lemma roundHalfEven_of_int: "roundHalfEven (of_int z) = z"
  by (simp add: roundHalfEven_def Let_def)

lemma binary64_exact_pos:
  fixes n :: int
  assumes "0 < n" "n < 2 ^ 53"
  shows "binary64 (of_int n) = of_int n"
proof -
  define a :: rat where "a = of_int n"
  have pos: "0 < a" using assms(1) by (simp add: a_def)
  note b = ilog2_bounds [OF pos]
  define k where "k = ilog2 a"
  have "(2::rat) powi 0 \<le> a"
    using assms(1) by (simp add: a_def)
  with b(2) have "(2::rat) powi 0 < 2 powi (k + 1)"
    unfolding k_def by linarith
  then have k0: "0 \<le> k"
    using powi_less_imp_less [of 0 "k + 1"] by simp
  have "a < 2 powi 53"
    using assms(2) unfolding a_def
    by (metis of_int_less_iff of_int_numeral of_int_power power_int_numeral)
  with b(1) have "(2::rat) powi k < 2 powi 53"
    unfolding k_def by linarith
  then have k52: "k \<le> 52"
    using powi_less_imp_less [of k 53] by simp
  have emax: "max (k - 52) (- 1074) = k - 52"
    using k0 by simp
  define z :: int where "z = n * 2 ^ nat (52 - k)"
  have "(2::rat) powi (k - 52) = 1 / 2 ^ nat (52 - k)"
  proof -
    have "k - 52 = - int (nat (52 - k))" using k52 by simp
    then show ?thesis
      by (simp only: power_int_minus_divide power_int_of_nat)
  qed
  then have y: "a / 2 powi (k - 52) = of_int z"
    by (simp add: a_def z_def)
  have r: "of_int z * (2::rat) powi (k - 52) = a"
    using y by (metis nonzero_divide_eq_eq power_int_eq_0_iff zero_neq_numeral)
  have "a < infinity"
  proof -
    have "a < 2 ^ 53" using assms(2) unfolding a_def
      by (metis of_int_less_iff of_int_numeral of_int_power)
    also have "(2::rat) ^ 53 \<le> 2 ^ 1024"
      by (rule power_increasing) simp_all
    finally show ?thesis by (simp add: infinity_def)
  qed
  then show ?thesis
    using pos
    by (simp add: binary64_def Let_def a_def [symmetric] k_def [symmetric] emax y
        roundHalfEven_of_int r)
qed

lemma sgn_mult_abs_rat: "sgn (x::rat) * \<bar>x\<bar> = x"
  by (simp add: sgn_if abs_if)

lemma toNumber_binary64: "toNumber n = binary64 (of_int n)"
proof (cases "\<bar>n\<bar> < 2 ^ 53")
  case False
  then show ?thesis by (simp add: toNumber_def)
next
  case True
  show ?thesis
  proof (cases "n = 0")
    case True
    then show ?thesis by (simp add: toNumber_def binary64_zero)
  next
    case False
    with True have "binary64 (of_int \<bar>n\<bar>) = of_int \<bar>n\<bar>"
      by (intro binary64_exact_pos) simp_all
    moreover have "binary64 (of_int n) = sgn (of_int n) * binary64 (of_int \<bar>n\<bar>)"
      using False by (auto simp: binary64_def Let_def sgn_if)
    ultimately have "binary64 (of_int n) = sgn (of_int n :: rat) * \<bar>of_int n\<bar>"
      by simp
    with True show ?thesis
      by (simp add: toNumber_def sgn_mult_abs_rat)
  qed
qed

text \<open>
  Claim C3: for every employee list (a JavaScript array, so shorter than \<open>2^32\<close>) and
  period, the leaver count is the number of employees whose contract end lies in
  \<open>[period start, period end]\<close>, bounds included; the turnover rate is exactly 0 when
  the headcount at period start is 0, whatever the leaver count; otherwise it is an
  integer nearest to leavers / start headcount * 100, that is, within one half of it.
  The function is total: no input raises.
\<close>

theorem C3_turnover_rate:
  assumes "length employees < 2 ^ 32"
  shows "computeLeavers employees period =
       length (filter (\<lambda>emp. \<exists>e. contractEnd emp = Some e \<and>
          period_start period \<le> e \<and> e \<le> period_end period) employees)
     \<and> (if computeHeadcountAtPeriodStart employees (period_start period) = 0
        then computeTurnoverRate employees period = 0
        else \<bar>of_int (computeTurnoverRate employees period)
               - of_nat (computeLeavers employees period)
                 / of_nat (computeHeadcountAtPeriodStart employees (period_start period))
                 * (100 :: rat)\<bar> \<le> 1 / 2)"
proof -
  have leavers: "computeLeavers employees period =
       length (filter (\<lambda>emp. \<exists>e. contractEnd emp = Some e \<and>
          period_start period \<le> e \<and> e \<le> period_end period) employees)"
    unfolding computeLeavers_def
    by (rule arg_cong [where f = length], rule filter_cong)
       (auto simp: isLeaver_def split: option.splits)
  have L: "computeLeavers employees period < 2 ^ 32"
    unfolding computeLeavers_def
    using assms length_filter_le [of "isLeaver period" employees] by linarith
  have S: "computeHeadcountAtPeriodStart employees (period_start period) < 2 ^ 32"
    unfolding computeHeadcountAtPeriodStart_def
    using assms length_filter_le [of "activeAtStart (period_start period)" employees]
    by linarith
  show ?thesis
  proof (cases "computeHeadcountAtPeriodStart employees (period_start period) = 0")
    case True
    then show ?thesis
      using leavers by (simp add: computeTurnoverRate_def)
  next
    case False
    then have pos: "0 < computeHeadcountAtPeriodStart employees (period_start period)"
      by simp
    have "computeTurnoverRate employees period =
        mathRound (binary64 (binary64 (of_nat (computeLeavers employees period)
          / of_nat (computeHeadcountAtPeriodStart employees (period_start period))) * 100))"
      using False by (simp add: computeTurnoverRate_def Let_def)
    moreover have "of_nat (computeLeavers employees period)
          / of_nat (computeHeadcountAtPeriodStart employees (period_start period)) * (100 :: rat)
        = 100 * of_nat (computeLeavers employees period)
          / of_nat (computeHeadcountAtPeriodStart employees (period_start period))"
      by simp
    ultimately have "\<bar>of_int (computeTurnoverRate employees period)
               - of_nat (computeLeavers employees period)
                 / of_nat (computeHeadcountAtPeriodStart employees (period_start period))
                 * (100 :: rat)\<bar> \<le> 1 / 2"
      using round_percent [OF pos L S] by (simp only:)
    with False leavers show ?thesis
      by (simp only: if_False simp_thms)
  qed
qed

theorem C3_turnover_rate_witness:
  "length sampleEmployees < 2 ^ 32
   \<and> computeLeavers sampleEmployees november2025 = 1
   \<and> computeHeadcountAtPeriodStart sampleEmployees (period_start november2025) = 5
   \<and> computeTurnoverRate sampleEmployees november2025 = 20"
proof -
  have len: "length sampleEmployees < 2 ^ 32"
    by (simp add: sampleEmployees_def)
  have L: "computeLeavers sampleEmployees november2025 = 1"
    by (simp add: computeLeavers_def isLeaver_def sampleEmployees_def november2025_def)
  have S: "computeHeadcountAtPeriodStart sampleEmployees (period_start november2025) = 5"
    by (simp add: computeHeadcountAtPeriodStart_def activeAtStart_def sampleEmployees_def
        november2025_def)
  from C3_turnover_rate [OF len, of november2025]
  have "\<bar>of_int (computeTurnoverRate sampleEmployees november2025) - (20 :: rat)\<bar> \<le> 1 / 2"
    by (simp add: L S)
  then have "of_int (computeTurnoverRate sampleEmployees november2025) < (21 :: rat)"
    and "(19 :: rat) < of_int (computeTurnoverRate sampleEmployees november2025)"
    by linarith+
  then have "computeTurnoverRate sampleEmployees november2025 = 20"
    by simp
  with len L S show ?thesis by simp
qed

section \<open>Properties of the calendar arithmetic\<close>

lemma div_bounds:
  fixes x k :: int
  assumes "0 < k"
  shows "k * (x div k) \<le> x" and "x < k * (x div k) + k"
proof -
  have "x = k * (x div k) + x mod k" by simp
  moreover have "0 \<le> x mod k" "x mod k < k" using assms by simp_all
  ultimately show "k * (x div k) \<le> x" and "x < k * (x div k) + k"
    by linarith+
qed

lemma div_step:
  fixes x k :: int
  assumes "1 < k"
  shows "(x + 1) div k = x div k + (if (x + 1) mod k = 0 then 1 else 0)"
proof -
  have r: "0 \<le> x mod k" "x mod k < k" using assms by simp_all
  show ?thesis
  proof (cases "x mod k + 1 = k")
    case True
    then have "k * (x div k + 1) + 0 = k * (x div k) + (x mod k + 1)"
      by (simp add: algebra_simps)
    also have "\<dots> = x + 1" by simp
    finally have e: "x + 1 = k * (x div k + 1) + 0" by simp
    have "(x + 1) div k = x div k + 1"
      by (rule int_div_pos_eq [OF e]) (use assms in simp_all)
    moreover have "(x + 1) mod k = 0"
      by (rule int_mod_pos_eq [OF e]) (use assms in simp_all)
    ultimately show ?thesis by simp
  next
    case False
    with r have lt: "x mod k + 1 < k" by simp
    have e: "x + 1 = k * (x div k) + (x mod k + 1)"
      by simp
    have "(x + 1) div k = x div k"
      by (rule int_div_pos_eq [OF e]) (use r lt in simp_all)
    moreover have "(x + 1) mod k = x mod k + 1"
      by (rule int_mod_pos_eq [OF e]) (use r lt in simp_all)
    ultimately show ?thesis using r by simp
  qed
qed

lemma month_cases:
  fixes mn :: int
  assumes "0 \<le> mn" "mn \<le> 11"
  shows "mn = 0 \<or> mn = 1 \<or> mn = 2 \<or> mn = 3 \<or> mn = 4 \<or> mn = 5 \<or> mn = 6 \<or> mn = 7
     \<or> mn = 8 \<or> mn = 9 \<or> mn = 10 \<or> mn = 11"
  using assms by presburger

lemma dayFromYear_mean:
  "- 506 \<le> 400 * dayFromYear y - 146097 * (y - 1970)"
  "400 * dayFromYear y - 146097 * (y - 1970) \<le> 589"
proof -
  define a where "a = (y - 1969) div 4"
  define b where "b = (y - 1901) div 100"
  define c where "c = (y - 1601) div 400"
  have a: "4 * a \<le> y - 1969" "y - 1969 < 4 * a + 4"
    unfolding a_def by (rule div_bounds, simp)+
  have b: "100 * b \<le> y - 1901" "y - 1901 < 100 * b + 100"
    unfolding b_def by (rule div_bounds, simp)+
  have c: "400 * c \<le> y - 1601" "y - 1601 < 400 * c + 400"
    unfolding c_def by (rule div_bounds, simp)+
  have d: "dayFromYear y = 365 * (y - 1970) + a - b + c"
    by (simp add: dayFromYear_def a_def b_def c_def)
  show "- 506 \<le> 400 * dayFromYear y - 146097 * (y - 1970)"
    unfolding d using a b c by simp
  show "400 * dayFromYear y - 146097 * (y - 1970) \<le> 589"
    unfolding d using a b c by simp
qed

lemma dayFromYear_mono:
  assumes "y1 < y2"
  shows "dayFromYear y1 < dayFromYear y2"
  using dayFromYear_mean [of y1] dayFromYear_mean [of y2] assms by simp

lemma yearFromDay_spec:
  "dayFromYear (yearFromDay t) \<le> t" "t < dayFromYear (yearFromDay t + 1)"
proof -
  define q where "q = (400 * t) div 146097"
  have q: "146097 * q \<le> 400 * t" "400 * t < 146097 * q + 146097"
    unfolding q_def by (rule div_bounds, simp)+
  have lo: "dayFromYear (1970 + q - 1) \<le> t"
    using dayFromYear_mean [of "1970 + q - 1"] q by simp
  have hi: "t < dayFromYear (1970 + q + 1 + 1)"
    using dayFromYear_mean [of "1970 + q + 1 + 1"] q by simp
  have y: "yearFromDay t =
     (if t < dayFromYear (1970 + q) then 1970 + q - 1
      else if dayFromYear (1970 + q + 1) \<le> t then 1970 + q + 1
      else 1970 + q)"
    by (simp add: yearFromDay_def q_def Let_def)
  show "dayFromYear (yearFromDay t) \<le> t"
    unfolding y using lo by auto
  show "t < dayFromYear (yearFromDay t + 1)"
    unfolding y using hi by auto
qed

lemma yearFromDay_unique:
  assumes "dayFromYear y \<le> t" "t < dayFromYear (y + 1)"
  shows "yearFromDay t = y"
proof (rule ccontr)
  assume ne: "yearFromDay t \<noteq> y"
  note s = yearFromDay_spec [of t]
  show False
  proof (cases "yearFromDay t < y")
    case True
    then have "dayFromYear (yearFromDay t + 1) \<le> dayFromYear y"
      using dayFromYear_mono [of "yearFromDay t + 1" y] by (cases "yearFromDay t + 1 = y") auto
    with s assms show False by linarith
  next
    case False
    with ne have "y + 1 \<le> yearFromDay t" by simp
    then have "dayFromYear (y + 1) \<le> dayFromYear (yearFromDay t)"
      using dayFromYear_mono [of "y + 1" "yearFromDay t"] by (cases "y + 1 = yearFromDay t") auto
    with s assms show False by linarith
  qed
qed

lemma mod_shift:
  fixes y :: int
  shows "(y - 1969 + 1) mod 4 = y mod 4" "(y - 1901 + 1) mod 100 = y mod 100"
    "(y - 1601 + 1) mod 400 = y mod 400"
proof -
  have "(y - 1968) mod 4 = (y - 1968 mod 4) mod 4"
    by (simp only: mod_diff_right_eq)
  then show "(y - 1969 + 1) mod 4 = y mod 4" by simp
  have "(y - 1900) mod 100 = (y - 1900 mod 100) mod 100"
    by (simp only: mod_diff_right_eq)
  then show "(y - 1901 + 1) mod 100 = y mod 100" by simp
  have "(y - 1600) mod 400 = (y - 1600 mod 400) mod 400"
    by (simp only: mod_diff_right_eq)
  then show "(y - 1601 + 1) mod 400 = y mod 400" by simp
qed

lemma mod_chain:
  fixes y :: int
  shows "y mod 400 = 0 \<Longrightarrow> y mod 100 = 0" and "y mod 100 = 0 \<Longrightarrow> y mod 4 = 0"
proof -
  have "y mod 100 = y mod 400 mod 100" by (simp add: mod_mod_cancel)
  then show "y mod 400 = 0 \<Longrightarrow> y mod 100 = 0" by simp
  have "y mod 4 = y mod 100 mod 4" by (simp add: mod_mod_cancel)
  then show "y mod 100 = 0 \<Longrightarrow> y mod 4 = 0" by simp
qed

lemma dayFromYear_next:
  "dayFromYear (y + 1) = dayFromYear y + 365 + (if inLeapYear y then 1 else 0)"
proof -
  have a: "(y + 1 - 1969) div 4 = (y - 1969) div 4 + (if y mod 4 = 0 then 1 else 0)"
    using div_step [of 4 "y - 1969"] mod_shift(1) [of y] by (simp add: algebra_simps)
  have b: "(y + 1 - 1901) div 100 = (y - 1901) div 100 + (if y mod 100 = 0 then 1 else 0)"
    using div_step [of 100 "y - 1901"] mod_shift(2) [of y] by (simp add: algebra_simps)
  have c: "(y + 1 - 1601) div 400 = (y - 1601) div 400 + (if y mod 400 = 0 then 1 else 0)"
    using div_step [of 400 "y - 1601"] mod_shift(3) [of y] by (simp add: algebra_simps)
  show ?thesis
    unfolding dayFromYear_def inLeapYear_def a b c
    using mod_chain [of y] by auto
qed

lemma civil_roundtrip:
  assumes m: "0 \<le> mn" "mn \<le> 11" and d: "1 \<le> date" "date \<le> daysInMonth year mn"
  shows "getFullYear (makeDay year mn date) = year"
    and "getMonth (makeDay year mn date) = mn"
    and "getDate (makeDay year mn date) = date"
proof -
  define l :: int where "l = (if inLeapYear year then 1 else 0)"
  define t where "t = makeDay year mn date"
  have ym: "mn div 12 = 0" "mn mod 12 = mn"
    using m by simp_all
  have t: "t = dayFromYear year + daysBeforeMonth (inLeapYear year) mn + date - 1"
    by (simp add: t_def makeDay_def Let_def ym)
  have off: "0 \<le> daysBeforeMonth (inLeapYear year) mn + date - 1 \<and>
    daysBeforeMonth (inLeapYear year) mn + date - 1 < 365 + l"
    using month_cases [OF m] d
    by (elim disjE) (auto simp: daysBeforeMonth_def daysInMonth_def l_def Let_def)
  have y: "yearFromDay t = year"
    using off by (intro yearFromDay_unique) (simp_all add: t dayFromYear_next l_def)
  then show "getFullYear (makeDay year mn date) = year"
    by (simp add: getFullYear_def t_def)
  have w: "dayWithinYear t = daysBeforeMonth (inLeapYear year) mn + date - 1"
    by (simp only: dayWithinYear_def y) (simp add: t)
  have gm: "getMonth t = mn"
    using month_cases [OF m] d
    unfolding getMonth_def w y
    by (elim disjE) (auto simp: daysBeforeMonth_def daysInMonth_def Let_def)
  then show "getMonth (makeDay year mn date) = mn"
    by (simp add: t_def)
  show "getDate (makeDay year mn date) = date"
    unfolding t_def [symmetric] getDate_def w y gm by simp
qed

lemma last_day_of_month:
  assumes "0 \<le> mn" "mn \<le> 11"
  shows "makeDay year (mn + 1) 0 = makeDay year mn (daysInMonth year mn)"
  using month_cases [OF assms]
  by (elim disjE) (auto simp: makeDay_def daysBeforeMonth_def daysInMonth_def Let_def
        dayFromYear_next)

section \<open>Properties of the employee normalization\<close>


lemma foldl_snoc_map: "foldl (\<lambda>acc x. acc @ [f x]) acc xs = acc @ map f xs"
  by (induction xs arbitrary: acc) simp_all

lemma foldl_append_concat: "foldl (\<lambda>acc x. acc @ g x) acc xs = acc @ concat (map g xs)"
  by (induction xs arbitrary: acc) simp_all

lemma normalizeEmployees_concat:
  "normalizeEmployees declaration =
     concat (map (\<lambda>etab. map (toEmployee (orElse (countryCode etab) ''unknown''))
                   (individus etab))
              (etablissementsOf declaration))"
  by (simp add: normalizeEmployees_def foldl_snoc_map foldl_append_concat)

lemma length_concat_map:
  "length (concat (map (\<lambda>x. map (f x) (g x)) xs)) = sum_list (map (\<lambda>x. length (g x)) xs)"
  by (induction xs) simp_all

lemma toEmployee_no_contract:
  "contrats individu = [] \<Longrightarrow>
     contractStart (toEmployee cc individu) = None \<and>
     contractEnd (toEmployee cc individu) = None \<and>
     pcsEse (toEmployee cc individu) = None"
  by (simp add: toEmployee_def lastContrat_def)

lemma toEmployee_fields:
  "country (toEmployee cc individu) = cc \<and>
   emp_id (toEmployee cc individu) = orElse (identifiant individu) [] \<and>
   gender (toEmployee cc individu) = parseGender (sexe individu) \<and>
   (if contrats individu = []
    then contractStart (toEmployee cc individu) = None \<and>
         contractEnd (toEmployee cc individu) = None \<and>
         pcsEse (toEmployee cc individu) = None
    else contractStart (toEmployee cc individu) =
           (case dateDebut (last (contrats individu)) of
              None \<Rightarrow> None | Some s \<Rightarrow> if s = [] then None else parseDsnDate s) \<and>
         contractEnd (toEmployee cc individu) =
           (case dateFin (last (contrats individu)) of
              None \<Rightarrow> None | Some s \<Rightarrow> if s = [] then None else parseDsnDate s) \<and>
         pcsEse (toEmployee cc individu) =
           (case c_pcsEse (last (contrats individu)) of
              None \<Rightarrow> None | Some s \<Rightarrow> if s = [] then None else Some s))"
  by (simp add: toEmployee_def lastContrat_def)

section \<open>Properties of the parser\<close>


lemma withEtablissements_valid [simp]:
  "validStatement (withEtablissements es d) = validStatement d"
  by (simp add: withEtablissements_def split: option.splits)

lemma processBloc_valid: "validStatement (processBloc rs index d) = validStatement d"
  by (simp add: processBloc_def Let_def processHeader_def processEntreprise_def
      processEtablissement_def processIndividu_def processContrat_def processFinContrat_def)

lemma readerLoop_valid:
  assumes "readerLoop rs index d = Some d'"
  shows "validStatement d' = validStatement d"
proof (rule readerLoop.raw_induct
    [where P = "\<lambda>rs index d d'. validStatement d' = validStatement d", OF _ assms])
  fix loop and rs :: "DSNRow list" and index d d'
  assume IH: "\<And>rs index d d'. loop rs index d = Some d' \<Longrightarrow> validStatement d' = validStatement d"
    and step: "(if index < length rs
      then loop rs (advance rs (blocCode (rs ! index)) (valueCode (rs ! index)) index)
             (processBloc rs index d)
      else Some d) = Some d'"
  show "validStatement d' = validStatement d"
  proof (cases "index < length rs")
    case True
    with step have "loop rs (advance rs (blocCode (rs ! index)) (valueCode (rs ! index)) index)
        (processBloc rs index d) = Some d'"
      by simp
    then have "validStatement d' = validStatement (processBloc rs index d)"
      by (rule IH)
    then show ?thesis
      by (simp add: processBloc_valid)
  next
    case False
    with step show ?thesis by simp
  qed
qed

lemma advance_ge: "index \<le> advance rs bc vc index"
proof (induction rs bc vc index rule: advance.induct)
  case (1 rs bc vc index)
  show ?case
  proof (cases "index < length rs \<and> blocCode (rs ! index) = bc \<and>
         geNum (parseInt (valueCode (rs ! index))) (parseInt vc)")
    case True
    with "1.IH" have "index + 1 \<le> advance rs bc
        (if index + 1 < length rs then valueCode (rs ! (index + 1)) else vc) (index + 1)"
      by simp
    with True show ?thesis
      by (subst advance.simps) simp
  next
    case False
    then show ?thesis
      by (subst advance.simps) auto
  qed
qed

lemma advance_gt:
  assumes "index < length rs" and "parseInt (valueCode (rs ! index)) \<noteq> None"
  shows "index < advance rs (blocCode (rs ! index)) (valueCode (rs ! index)) index"
proof -
  from assms(2) have "geNum (parseInt (valueCode (rs ! index))) (parseInt (valueCode (rs ! index)))"
    by (auto simp: geNum_def)
  with assms(1) have "advance rs (blocCode (rs ! index)) (valueCode (rs ! index)) index =
      advance rs (blocCode (rs ! index))
        (if index + 1 < length rs then valueCode (rs ! (index + 1)) else valueCode (rs ! index))
        (index + 1)"
    by (subst advance.simps) simp
  moreover have "index + 1 \<le> advance rs (blocCode (rs ! index))
        (if index + 1 < length rs then valueCode (rs ! (index + 1)) else valueCode (rs ! index))
        (index + 1)"
    by (rule advance_ge)
  ultimately show ?thesis by simp
qed

lemma readerLoop_returns:
  assumes "\<forall>i < length rs. parseInt (valueCode (rs ! i)) \<noteq> None"
  shows "\<exists>d'. readerLoop rs index d = Some d'"
proof (induction "length rs - index" arbitrary: index d rule: less_induct)
  case less
  show ?case
  proof (cases "index < length rs")
    case True
    let ?next = "advance rs (blocCode (rs ! index)) (valueCode (rs ! index)) index"
    from True assms have "index < ?next"
      by (intro advance_gt) simp_all
    with True have "length rs - ?next < length rs - index"
      by simp
    from less [OF this] obtain d' where "readerLoop rs ?next (processBloc rs index d) = Some d'"
      by blast
    with True show ?thesis
      by (subst readerLoop.simps) simp
  next
    case False
    then show ?thesis
      by (subst readerLoop.simps) simp
  qed
qed

lemma isDigit_cases:
  "isDigit c \<Longrightarrow> \<not> isWhiteSpace c \<and> c \<noteq> CHR ''-'' \<and> c \<noteq> CHR ''+'' \<and> c \<noteq> CHR ''x''
     \<and> c \<noteq> CHR ''X'' \<and> isRadixDigit 10 c"
  by (auto simp: isDigit_def isWhiteSpace_def isRadixDigit_def digitValue_def)

lemma parseInt_digits:
  assumes "isDigit a" "isDigit b"
  shows "parseInt (a # b # cs) \<noteq> None"
  using isDigit_cases [OF assms(1)] isDigit_cases [OF assms(2)]
  by (auto simp: parseInt_def parseIntRadix_def Let_def)

lemma toRow_valueCode:
  assumes "matchesRecord line"
  shows "parseInt (valueCode (toRow line)) \<noteq> None"
proof -
  from assms have len: "16 \<le> length line"
    and d: "isDigit (line ! 11)" "isDigit (line ! 12)"
    by (simp_all add: matchesRecord_def)
  have "substring line 11 14 = [line ! 11, line ! 12, line ! 13]"
  proof -
    have "drop 11 line = line ! 11 # drop 12 line" "drop 12 line = line ! 12 # drop 13 line"
      "drop 13 line = line ! 13 # drop 14 line"
      using len by (simp_all add: Cons_nth_drop_Suc [symmetric])
    then have "take 3 (drop 11 line) = [line ! 11, line ! 12, line ! 13]"
      by (simp add: numeral_3_eq_3)
    with len show ?thesis
      by (simp add: substring_def Let_def min_def max_def)
  qed
  with d show ?thesis
    by (simp add: toRow_def parseInt_digits)
qed

lemma DSNFileReader_rows:
  "\<forall>i < length (rows (DSNFileReader content)).
     parseInt (valueCode (rows (DSNFileReader content) ! i)) \<noteq> None"
proof -
  have "\<forall>r \<in> set (rows (DSNFileReader content)). parseInt (valueCode r) \<noteq> None"
    using toRow_valueCode by (auto simp: DSNFileReader_def Let_def)
  then show ?thesis
    by (metis nth_mem)
qed

lemma DSNDataReader_valid:
  "DSNDataReader dataDSN = Some d \<Longrightarrow> validStatement d"
  using readerLoop_valid [of "rows dataDSN" 0 initialDeclaration d]
  by (simp add: DSNDataReader_def initialDeclaration_def)

lemma DSNDataReader_file_returns:
  "\<exists>d. DSNDataReader (DSNFileReader content) = Some d \<and> validStatement d"
  using readerLoop_returns [OF DSNFileReader_rows, of content 0 initialDeclaration]
    DSNDataReader_valid [of "DSNFileReader content"]
  by (auto simp: DSNDataReader_def)

text \<open>Fed directly with a row whose sequence code \<open>parseInt\<close> cannot read, the
  inner loop leaves \<open>index\<close> where it is and the builder does not return; the line
  parser produces no such row (\<open>DSNFileReader_rows\<close>).\<close>

lemma advance_stuck:
  "advance [\<lparr>blocCode = ''S21.G00.30'', rubriqueCode = ''S21.G00.30.abc'',
             valueCode = ''abc'', row_value = ''x''\<rparr>] ''S21.G00.30'' ''abc'' 0 = 0"
  by (subst advance.simps) (simp add: geNum_def parseInt_def parseIntRadix_def Let_def
      isWhiteSpace_def isRadixDigit_def digitValue_def)

lemma DSNDataReader_no_return:
  "DSNDataReader
     \<lparr>rows = [\<lparr>blocCode = ''S21.G00.30'', rubriqueCode = ''S21.G00.30.abc'',
               valueCode = ''abc'', row_value = ''x''\<rparr>],
      data_errors = []\<rparr> = None"
proof (rule ccontr)
  let ?rs = "[\<lparr>blocCode = ''S21.G00.30'', rubriqueCode = ''S21.G00.30.abc'',
               valueCode = ''abc'', row_value = ''x''\<rparr>]"
  assume "\<not> ?thesis"
  then obtain d' where ret: "readerLoop ?rs 0 initialDeclaration = Some d'"
    by (auto simp: DSNDataReader_def)
  have "\<not> (?rs = ?rs \<and> (0::nat) = 0)"
  proof (rule readerLoop.raw_induct
      [where P = "\<lambda>rs index d d'. \<not> (rs = ?rs \<and> index = 0)", OF _ ret])
    fix loop and rs :: "DSNRow list" and index :: nat and d d' :: Declaration
    assume IH: "\<And>rs index d d'. loop rs index d = Some d' \<Longrightarrow> \<not> (rs = ?rs \<and> index = 0)"
      and step: "(if index < length rs
        then loop rs (advance rs (blocCode (rs ! index)) (valueCode (rs ! index)) index)
               (processBloc rs index d)
        else Some d) = Some d'"
    show "\<not> (rs = ?rs \<and> index = 0)"
    proof
      assume eq: "rs = ?rs \<and> index = 0"
      with step have "loop ?rs 0 (processBloc ?rs 0 d) = Some d'"
        by (simp add: advance_stuck)
      from IH [OF this] show False by simp
    qed
  qed
  then show False by simp
qed

section \<open>Properties of the reporting period\<close>

text \<open>The examples of the source: a date token is read back as its calendar date, and
  a token that is no calendar date is rejected.\<close>

lemma parseDsnDate_examples:
  "parseDsnDate ''20251130'' = Some 20422"
  "getFullYear 20422 = 2025" "getMonth 20422 = 10" "getDate 20422 = 30"
  "parseDsnDate ''20250230'' = None"
  "parseDsnDate ''20240229'' = Some 19782"
  by code_simp+

text \<open>On a token that passes the tests, the period runs from the first to the last
  day of the month named by its first six digits.\<close>

lemma extractReportingPeriod_month:
  assumes "mois declaration = Some moisStr"
    and "6 \<le> length moisStr" "length moisStr \<le> 8" "list_all isDigit moisStr"
    and "year = decimalValue (substring moisStr 0 4)"
    and "month = decimalValue (substring moisStr 4 6) - 1"
    and "1900 \<le> year" "year \<le> 2100" "0 \<le> month" "month \<le> 11"
  shows "extractReportingPeriod declaration =
      Inr \<lparr>period_start = makeDay year month 1,
           period_end = makeDay year month (daysInMonth year month)\<rparr>"
    and "getFullYear (makeDay year month 1) = year \<and> getMonth (makeDay year month 1) = month
      \<and> getDate (makeDay year month 1) = 1"
    and "getFullYear (makeDay year month (daysInMonth year month)) = year
      \<and> getMonth (makeDay year month (daysInMonth year month)) = month
      \<and> getDate (makeDay year month (daysInMonth year month)) = daysInMonth year month"
proof -
  have sub: "substring (substring moisStr 0 6) 0 4 = substring moisStr 0 4"
    "substring (substring moisStr 0 6) 4 6 = substring moisStr 4 6"
    using assms(2) by (simp_all add: substring_def Let_def min_def max_def take_drop)
  have dim: "1 \<le> daysInMonth year month"
    by (simp add: daysInMonth_def)
  show "extractReportingPeriod declaration =
      Inr \<lparr>period_start = makeDay year month 1,
           period_end = makeDay year month (daysInMonth year month)\<rparr>"
    using assms sub last_day_of_month [of month year]
    by (simp add: extractReportingPeriod_def Let_def newDate_def)
  show "getFullYear (makeDay year month 1) = year \<and> getMonth (makeDay year month 1) = month
      \<and> getDate (makeDay year month 1) = 1"
    using civil_roundtrip [of month 1 year] assms(9,10) dim by simp
  show "getFullYear (makeDay year month (daysInMonth year month)) = year
      \<and> getMonth (makeDay year month (daysInMonth year month)) = month
      \<and> getDate (makeDay year month (daysInMonth year month)) = daysInMonth year month"
    using civil_roundtrip [of month "daysInMonth year month" year] assms(9,10) dim by simp
qed

section \<open>The claims on the parser, the period and the normalization\<close>

text \<open>
  Claim C5 fails on the code for a 7-digit token: the format test \<open>/^\d{6,8}$/\<close> lets
  it through, the first four digits are read as the year and the next two as the month.
  For \<open>"2025110"\<close> the function returns November 2025 instead of raising.
\<close>

theorem C5_seven_digit_token_accepted:
  "extractReportingPeriod (initialDeclaration\<lparr>mois := Some ''2025110''\<rparr>) =
     Inr \<lparr>period_start = 20393, period_end = 20422\<rparr>"
  by code_simp

text \<open>
  Claim C6: \<open>parseDsnFile\<close> always returns; it raises if and only if one of the prefixes
  \<open>S10.\<close>, \<open>S20.\<close>, \<open>S21.\<close> starts no line of the content, and the error is then the
  one of the conformity pre-check, which is the value of the first test, whatever the
  parser would make of the content; otherwise the declaration built by the parser is
  returned.  In particular a text with no line starting with \<open>S21.\<close> is rejected.
\<close>

theorem C6_conformity_precheck:
  "((\<exists>e. parseDsnFile content = Some (Inl e)) \<longleftrightarrow>
      \<not> ((\<exists>line \<in> set (splitOn (CHR 0x0A) content). prefix ''S10.'' line) \<and>
         (\<exists>line \<in> set (splitOn (CHR 0x0A) content). prefix ''S20.'' line) \<and>
         (\<exists>line \<in> set (splitOn (CHR 0x0A) content). prefix ''S21.'' line)))
   \<and> ((\<exists>e. parseDsnFile content = Some (Inl e)) \<longrightarrow>
        parseDsnFile content = Some (Inl MissingRequiredBlocks))
   \<and> (\<exists>r. parseDsnFile content = Some r)
   \<and> ((\<exists>d. parseDsnFile content = Some (Inr d)) \<longrightarrow>
        parseDsnFile content = map_option Inr (DSNDataReader (DSNFileReader content)))
   \<and> (\<not> (\<exists>line \<in> set (splitOn (CHR 0x0A) content). prefix ''S21.'' line) \<longrightarrow>
        parseDsnFile content = Some (Inl MissingRequiredBlocks))"
proof -
  obtain d where d: "DSNDataReader (DSNFileReader content) = Some d" "validStatement d"
    using DSNDataReader_file_returns by blast
  have req: "hasRequiredBlocks content \<longleftrightarrow>
      (\<exists>line \<in> set (splitOn (CHR 0x0A) content). prefix ''S10.'' line) \<and>
      (\<exists>line \<in> set (splitOn (CHR 0x0A) content). prefix ''S20.'' line) \<and>
      (\<exists>line \<in> set (splitOn (CHR 0x0A) content). prefix ''S21.'' line)"
    by (simp add: hasRequiredBlocks_def Let_def list_ex_iff)
  show ?thesis
  proof (cases "hasRequiredBlocks content")
    case True
    then have "parseDsnFile content = Some (Inr d)"
      using d by (simp add: parseDsnFile_def)
    with True d req show ?thesis by simp
  next
    case False
    then have "parseDsnFile content = Some (Inl MissingRequiredBlocks)"
      by (simp add: parseDsnFile_def)
    with False req show ?thesis by auto
  qed
qed

theorem C6_conformity_precheck_witness:
  "\<not> (\<exists>line \<in> set (splitOn (CHR 0x0A) fileWithoutS21). prefix ''S21.'' line)
   \<and> parseDsnFile fileWithoutS21 = Some (Inl MissingRequiredBlocks)"
proof -
  have h: "\<not> (\<exists>line \<in> set (splitOn (CHR 0x0A) fileWithoutS21). prefix ''S21.'' line)"
    by (simp add: fileWithoutS21_def)
  from C6_conformity_precheck [of fileWithoutS21] h
  have "parseDsnFile fileWithoutS21 = Some (Inl MissingRequiredBlocks)"
    by blast
  with h show ?thesis by blast
qed

text \<open>
  Claim C8 as stated: processing a company-identity block keeps the establishments built
  from earlier blocks.  It fails when an establishment block precedes the identity block:
  after the first block the declaration has one establishment, after the identity block
  it has none.
\<close>

theorem C8_establishments_counterexample:
  "etablissementsOf (processBloc [rowEtablissement, rowEntreprise] 0 initialDeclaration) =
     [\<lparr>nic = Some ''00011'', countryCode = None, individus = []\<rparr>]
   \<and> etablissementsOf (processBloc [rowEtablissement, rowEntreprise] 1
        (processBloc [rowEtablissement, rowEntreprise] 0 initialDeclaration)) = []
   \<and> DSNDataReader \<lparr>rows = [rowEtablissement, rowEntreprise], data_errors = []\<rparr> =
       Some (initialDeclaration\<lparr>entreprise := Some \<lparr>siren = Some ''123456789'',
         ent_nic = None, ent_country = None, etablissements = None\<rparr>\<rparr>)"
  by code_simp

text \<open>
  Claim C8, amended: processing a company-identity block (block code \<open>S21.G00.06\<close>)
  assigns to the Declaration a new company record holding the siren, nic and country
  read from the block and no establishment list, and leaves every other field of the
  Declaration (the header fields, the error list, \<open>validStatement\<close>) unchanged.  The
  company record is replaced, not updated, so the declaration has no establishment
  after the block.
\<close>

theorem C8_company_block_amended:
  assumes "blocCode (rs ! index) = ''S21.G00.06''"
  shows "processBloc rs index declaration =
       declaration\<lparr>entreprise := Some
          \<lparr>siren = getBloc rs index ''S21.G00.06'' ''S21.G00.06.001'',
           ent_nic = getBloc rs index ''S21.G00.06'' ''S21.G00.06.002'',
           ent_country = getBloc rs index ''S21.G00.06'' ''S21.G00.06.010'',
           etablissements = None\<rparr>\<rparr>
     \<and> etablissementsOf (processBloc rs index declaration) = []
     \<and> d_nature (processBloc rs index declaration) = d_nature declaration
     \<and> d_type (processBloc rs index declaration) = d_type declaration
     \<and> fraction (processBloc rs index declaration) = fraction declaration
     \<and> ordre (processBloc rs index declaration) = ordre declaration
     \<and> mois (processBloc rs index declaration) = mois declaration
     \<and> dateFichier (processBloc rs index declaration) = dateFichier declaration
     \<and> champ (processBloc rs index declaration) = champ declaration
     \<and> devise (processBloc rs index declaration) = devise declaration
     \<and> errors (processBloc rs index declaration) = errors declaration
     \<and> validStatement (processBloc rs index declaration) = validStatement declaration"
  using assms
  by (simp add: processBloc_def Let_def processEntreprise_def etablissementsOf_def)

theorem C8_company_block_amended_witness:
  "blocCode ([rowEtablissement, rowEntreprise] ! 1) = ''S21.G00.06''
   \<and> entreprise (processBloc [rowEtablissement, rowEntreprise] 1 sampleDeclaration) =
       Some \<lparr>siren = Some ''123456789'', ent_nic = None, ent_country = None,
             etablissements = None\<rparr>
   \<and> mois (processBloc [rowEtablissement, rowEntreprise] 1 sampleDeclaration) = Some ''202511''"
proof -
  have h: "blocCode ([rowEtablissement, rowEntreprise] ! 1) = ''S21.G00.06''"
    by (simp add: rowEntreprise_def)
  have g1: "getBloc [rowEtablissement, rowEntreprise] 1 ''S21.G00.06'' ''S21.G00.06.001''
      = Some ''123456789''"
    by code_simp
  have g2: "getBloc [rowEtablissement, rowEntreprise] 1 ''S21.G00.06'' ''S21.G00.06.002'' = None"
    by code_simp
  have g3: "getBloc [rowEtablissement, rowEntreprise] 1 ''S21.G00.06'' ''S21.G00.06.010'' = None"
    by code_simp
  have m: "mois sampleDeclaration = Some ''202511''"
    by (simp add: sampleDeclaration_def)
  from C8_company_block_amended [OF h, of sampleDeclaration]
  have "processBloc [rowEtablissement, rowEntreprise] 1 sampleDeclaration =
       sampleDeclaration\<lparr>entreprise := Some
          \<lparr>siren = getBloc [rowEtablissement, rowEntreprise] 1 ''S21.G00.06'' ''S21.G00.06.001'',
           ent_nic = getBloc [rowEtablissement, rowEntreprise] 1 ''S21.G00.06'' ''S21.G00.06.002'',
           ent_country = getBloc [rowEtablissement, rowEntreprise] 1 ''S21.G00.06'' ''S21.G00.06.010'',
           etablissements = None\<rparr>\<rparr>"
    by (rule conjunct1)
  then have "processBloc [rowEtablissement, rowEntreprise] 1 sampleDeclaration =
       sampleDeclaration\<lparr>entreprise := Some
          \<lparr>siren = Some ''123456789'', ent_nic = None, ent_country = None,
           etablissements = None\<rparr>\<rparr>"
    by (simp only: g1 g2 g3)
  with h m show ?thesis
    by simp
qed

text \<open>
  Claim C9: whatever the rows, a Declaration returned by the builder has
  \<open>validStatement = true\<close>; on the rows of the line parser the builder does return;
  and \<open>parseDsnFile\<close> never raises the structural-errors error.
\<close>

theorem C9_validStatement:
  "(\<forall>d. DSNDataReader dataDSN = Some d \<longrightarrow> validStatement d)
   \<and> (\<exists>d. DSNDataReader (DSNFileReader content) = Some d \<and> validStatement d)
   \<and> parseDsnFile content \<noteq> Some (Inl StructuralErrors)"
proof -
  obtain d where d: "DSNDataReader (DSNFileReader content) = Some d" "validStatement d"
    using DSNDataReader_file_returns by blast
  then have "parseDsnFile content \<noteq> Some (Inl StructuralErrors)"
    by (simp add: parseDsnFile_def)
  with d show ?thesis
    using DSNDataReader_valid by blast
qed

theorem C9_validStatement_witness:
  "DSNDataReader \<lparr>rows = [rowEtablissement, rowEntreprise], data_errors = []\<rparr> =
       Some (initialDeclaration\<lparr>entreprise := Some \<lparr>siren = Some ''123456789'',
         ent_nic = None, ent_country = None, etablissements = None\<rparr>\<rparr>)
   \<and> validStatement (initialDeclaration\<lparr>entreprise := Some \<lparr>siren = Some ''123456789'',
         ent_nic = None, ent_country = None, etablissements = None\<rparr>\<rparr>)"
proof -
  have run: "DSNDataReader \<lparr>rows = [rowEtablissement, rowEntreprise], data_errors = []\<rparr> =
       Some (initialDeclaration\<lparr>entreprise := Some \<lparr>siren = Some ''123456789'',
         ent_nic = None, ent_country = None, etablissements = None\<rparr>\<rparr>)"
    by code_simp
  from C9_validStatement [of "\<lparr>rows = [rowEtablissement, rowEntreprise], data_errors = []\<rparr>"]
  have "\<forall>d. DSNDataReader \<lparr>rows = [rowEtablissement, rowEntreprise], data_errors = []\<rparr> = Some d
      \<longrightarrow> validStatement d"
    by (rule conjunct1)
  with run show ?thesis by blast
qed

text \<open>
  Claim C10: for every Declaration, \<open>normalizeEmployees\<close> returns one Employee per
  Individual, establishment by establishment and, within an establishment, in the
  order of its individuals; the Employee carries the country code of the owning
  establishment (\<open>"unknown"\<close> when that code is missing or empty) and the start date,
  end date and job classification of the last contract of the individual's list; with
  an empty contract list the three are null.
\<close>

theorem C10_normalizeEmployees:
  "normalizeEmployees declaration =
     concat (map (\<lambda>etab. map (toEmployee (orElse (countryCode etab) ''unknown''))
                   (individus etab))
              (etablissementsOf declaration))
   \<and> length (normalizeEmployees declaration) =
       sum_list (map (\<lambda>etab. length (individus etab)) (etablissementsOf declaration))
   \<and> country (toEmployee cc individu) = cc
   \<and> (if contrats individu = []
       then contractStart (toEmployee cc individu) = None \<and>
            contractEnd (toEmployee cc individu) = None \<and>
            pcsEse (toEmployee cc individu) = None
       else contractStart (toEmployee cc individu) =
              (case dateDebut (last (contrats individu)) of
                 None \<Rightarrow> None | Some s \<Rightarrow> if s = [] then None else parseDsnDate s) \<and>
            contractEnd (toEmployee cc individu) =
              (case dateFin (last (contrats individu)) of
                 None \<Rightarrow> None | Some s \<Rightarrow> if s = [] then None else parseDsnDate s) \<and>
            pcsEse (toEmployee cc individu) =
              (case c_pcsEse (last (contrats individu)) of
                 None \<Rightarrow> None | Some s \<Rightarrow> if s = [] then None else Some s))"
  using toEmployee_fields [of cc individu]
  by (simp add: normalizeEmployees_concat length_concat_map)

theorem C10_normalizeEmployees_witness:
  "normalizeEmployees sampleDeclaration =
     [\<lparr>emp_id = ''185'', country = ''FR'', birthCountry = [], gender = Some M,
       contractStart = Some 20362, contractEnd = None, pcsEse = Some ''3855''\<rparr>,
      \<lparr>emp_id = ''285'', country = ''FR'', birthCountry = [], gender = Some F,
       contractStart = None, contractEnd = None, pcsEse = None\<rparr>]"
proof -
  from C10_normalizeEmployees [of sampleDeclaration]
  have "normalizeEmployees sampleDeclaration =
     concat (map (\<lambda>etab. map (toEmployee (orElse (countryCode etab) ''unknown''))
                   (individus etab))
              (etablissementsOf sampleDeclaration))"
    by (rule conjunct1)
  also have "\<dots> =
     [\<lparr>emp_id = ''185'', country = ''FR'', birthCountry = [], gender = Some M,
       contractStart = Some 20362, contractEnd = None, pcsEse = Some ''3855''\<rparr>,
      \<lparr>emp_id = ''285'', country = ''FR'', birthCountry = [], gender = Some F,
       contractStart = None, contractEnd = None, pcsEse = None\<rparr>]"
    by code_simp
  finally show ?thesis .
qed

section \<open>The claim on the question catalogue\<close>

subsection \<open>The hierarchy built by the second pass\<close>

lemma indexQuestions_range_aux:
  "(\<And>k i. m k = Some i \<Longrightarrow> i < n) \<Longrightarrow> set xs \<subseteq> {..<n} \<Longrightarrow>
     foldl (\<lambda>questionMap i. questionMap(q_id (fq ! i) \<mapsto> i)) m xs k = Some i \<Longrightarrow> i < n"
proof (induction xs arbitrary: m)
  case Nil
  then show ?case by simp
next
  case (Cons x xs)
  have "\<And>k i. (m(q_id (fq ! x) \<mapsto> x)) k = Some i \<Longrightarrow> i < n"
    using Cons.prems(1,2) by (auto split: if_splits)
  from Cons.IH [OF this] Cons.prems show ?case by simp
qed

lemma indexQuestions_range:
  "indexQuestions fq k = Some i \<Longrightarrow> i < length fq"
  unfolding indexQuestions_def
  by (rule indexQuestions_range_aux [where m = Map.empty and xs = "[0..<length fq]"]) auto

lemma parentOf_range:
  "parentOf (indexQuestions fq) q = Some p \<Longrightarrow> p < length fq"
  by (auto simp: parentOf_def indexQuestions_range split: option.splits)

lemma buildHierarchy_aux:
  "childrenOf (foldl (\<lambda>h i.
           (case par i of
              Some p \<Rightarrow> h\<lparr>childrenOf := (childrenOf h)(p := childrenOf h p @ [i])\<rparr>
            | None \<Rightarrow> h\<lparr>roots := roots h @ [i]\<rparr>)) h xs) p
     = childrenOf h p @ filter (\<lambda>i. par i = Some p) xs
   \<and> roots (foldl (\<lambda>h i.
           (case par i of
              Some p \<Rightarrow> h\<lparr>childrenOf := (childrenOf h)(p := childrenOf h p @ [i])\<rparr>
            | None \<Rightarrow> h\<lparr>roots := roots h @ [i]\<rparr>)) h xs)
     = roots h @ filter (\<lambda>i. par i = None) xs"
  by (induction xs arbitrary: h) (auto split: option.splits)

lemma buildHierarchy_children:
  "childrenOf (buildHierarchy fq) p =
     filter (\<lambda>i. parentOf (indexQuestions fq) (fq ! i) = Some p) [0..<length fq]"
  using buildHierarchy_aux [of "\<lambda>i. parentOf (indexQuestions fq) (fq ! i)"
      "\<lparr>childrenOf = (\<lambda>p. []), roots = []\<rparr>" "[0..<length fq]" p]
  by (simp add: buildHierarchy_def Let_def)

lemma buildHierarchy_roots:
  "roots (buildHierarchy fq) =
     filter (\<lambda>i. parentOf (indexQuestions fq) (fq ! i) = None) [0..<length fq]"
  using buildHierarchy_aux [of "\<lambda>i. parentOf (indexQuestions fq) (fq ! i)"
      "\<lparr>childrenOf = (\<lambda>p. []), roots = []\<rparr>" "[0..<length fq]" 0]
  by (simp add: buildHierarchy_def Let_def)

subsection \<open>Depth of an object below a root\<close>

lemma ancestor_add:
  "ancestor par (k + m) j = (case ancestor par k j of None \<Rightarrow> None | Some a \<Rightarrow> ancestor par m a)"
  by (induction k arbitrary: j) (auto split: option.splits)

lemma ancestor_range:
  assumes "\<And>j p. par j = Some p \<Longrightarrow> p < n"
    and "j < n" and "ancestor par k j = Some a"
  shows "a < n"
  using assms(2,3)
proof (induction k arbitrary: j)
  case 0
  then show ?case by simp
next
  case (Suc k)
  then show ?case
    using assms(1) by (auto split: option.splits)
qed

lemma ancestor_defined:
  assumes "ancestor par d j = Some r" and "k \<le> d"
  shows "\<exists>a. ancestor par k j = Some a"
proof -
  from assms(2) have "d = k + (d - k)" by simp
  then have "ancestor par d j =
      (case ancestor par k j of None \<Rightarrow> None | Some a \<Rightarrow> ancestor par (d - k) a)"
    by (metis ancestor_add)
  with assms(1) show ?thesis
    by (cases "ancestor par k j") simp_all
qed

lemma depth_bound:
  assumes range: "\<And>j p. par j = Some p \<Longrightarrow> p < n"
    and j: "j < n"
    and top: "ancestor par d j = Some r" "par r = None"
  shows "d < n"
proof (rule ccontr)
  assume "\<not> d < n"
  then have nd: "n \<le> d" by simp
  define g where "g k = the (ancestor par k j)" for k
  have gk: "ancestor par k j = Some (g k)" if "k \<le> d" for k
    using ancestor_defined [OF top(1) that] by (auto simp: g_def)
  have "g k < n" if "k \<le> d" for k
    using ancestor_range [of par n j k "g k"] range j gk [OF that] by blast
  then have "g ` {..d} \<subseteq> {..<n}"
    by auto
  then have "card (g ` {..d}) \<le> n"
    using card_mono [of "{..<n}" "g ` {..d}"] by simp
  with nd have "card (g ` {..d}) < card {..d}" by simp
  then have "\<not> inj_on g {..d}"
    using pigeonhole by blast
  then obtain a b where ab: "a \<le> d" "b \<le> d" "a < b" "g a = g b"
    unfolding inj_on_def by (metis atMost_iff linorder_neqE_nat)
  have "ancestor par d j = ancestor par (b + (d - b)) j"
    using ab(2) by simp
  also have "\<dots> = ancestor par (d - b) (g b)"
    using gk [OF ab(2)] by (simp only: ancestor_add) simp
  also have "\<dots> = ancestor par (a + (d - b)) j"
    using gk [OF ab(1)] ab(4) by (simp only: ancestor_add) simp
  finally have e: "ancestor par (a + (d - b)) j = Some r"
    using top(1) by simp
  have "ancestor par (a + (d - b) + 1) j = None"
    using e top(2) by (simp only: ancestor_add [of par "a + (d - b)" 1]) simp
  moreover have "a + (d - b) + 1 \<le> d"
    using ab by simp
  ultimately show False
    using ancestor_defined [OF top(1), of "a + (d - b) + 1"] by simp
qed

subsection \<open>The recursion of \<open>sortChildren\<close> returns\<close>

lemma those_map_defined:
  "(\<And>x. x \<in> set xs \<Longrightarrow> g x \<noteq> None) \<Longrightarrow> those (map g xs) \<noteq> None"
  by (induction xs) (auto split: option.splits)

lemma those_map_Some:
  "those (map g xs) = Some ts \<Longrightarrow> list_all2 (\<lambda>x t. g x = Some t) xs ts"
  by (induction xs arbitrary: ts) (auto split: option.splits)

lemma sortChildren_returns:
  assumes range: "\<And>j p. par j = Some p \<Longrightarrow> p < n"
    and kids: "\<And>p c. c \<in> set (cs p) \<Longrightarrow> par c = Some p \<and> c < n"
  shows "i < n \<Longrightarrow> ancestor par d i = Some r \<Longrightarrow> par r = None \<Longrightarrow> n \<le> d + f
     \<Longrightarrow> sortChildren f fq cs i \<noteq> None"
proof (induction f arbitrary: i d)
  case 0
  with depth_bound [OF range "0.prems"(1,2,3)] show ?case by simp
next
  case (Suc f)
  have "sortChildren f fq cs c \<noteq> None" if "c \<in> set (cs i)" for c
  proof -
    from kids [OF that] have c: "par c = Some i" "c < n" by simp_all
    then have "ancestor par (Suc d) c = Some r"
      using Suc.prems(2) by simp
    from Suc.IH [OF c(2) this Suc.prems(3)] Suc.prems(4) show ?thesis by simp
  qed
  then have "those (map (sortChildren f fq cs)
      (sort_key (\<lambda>i. q_order (fq ! i)) (cs i))) \<noteq> None"
    by (intro those_map_defined) simp
  then show ?case by (auto split: option.splits)
qed

lemma buildTree_returns: "buildTree fq \<noteq> None"
proof -
  let ?par = "\<lambda>i. parentOf (indexQuestions fq) (fq ! i)"
  have range: "\<And>j p. ?par j = Some p \<Longrightarrow> p < length fq"
    by (rule parentOf_range)
  have kids: "\<And>p c. c \<in> set (childrenOf (buildHierarchy fq) p) \<Longrightarrow>
      ?par c = Some p \<and> c < length fq"
    by (simp add: buildHierarchy_children)
  have "sortChildren (length fq) fq (childrenOf (buildHierarchy fq)) r \<noteq> None"
    if "r \<in> set (roots (buildHierarchy fq))" for r
  proof -
    from that have r: "r < length fq" "?par r = None"
      by (simp_all add: buildHierarchy_roots)
    have "ancestor ?par 0 r = Some r" by simp
    from sortChildren_returns [of ?par "length fq" "childrenOf (buildHierarchy fq)",
        OF range kids r(1) this r(2)]
    show ?thesis by simp
  qed
  then show ?thesis
    unfolding buildTree_def Let_def by (intro those_map_defined)
qed

lemma loadQuestionsFromCsv_returns: "\<exists>r. loadQuestionsFromCsv fileContent = Some r"
  using buildTree_returns
  by (auto simp: loadQuestionsFromCsv_def Let_def split: list.splits sum.splits)

subsection \<open>Children are sorted at every level\<close>

lemma insort_key_stable:
  fixes f :: "nat \<Rightarrow> rat"
  assumes "sorted_wrt (\<lambda>a b. f a < f b \<or> (f a = f b \<and> a < b)) ys"
    and "\<forall>y \<in> set ys. x < y"
  shows "sorted_wrt (\<lambda>a b. f a < f b \<or> (f a = f b \<and> a < b)) (insort_key f x ys)"
  using assms
proof (induction ys)
  case Nil
  then show ?case by simp
next
  case (Cons y ys)
  show ?case
  proof (cases "f x \<le> f y")
    case True
    with Cons.prems show ?thesis by (auto simp: less_le)
  next
    case False
    with Cons show ?thesis by (auto simp: set_insort_key)
  qed
qed

lemma sort_key_stable:
  fixes f :: "nat \<Rightarrow> rat"
  assumes "sorted_wrt (<) xs"
  shows "sorted_wrt (\<lambda>a b. f a < f b \<or> (f a = f b \<and> a < b)) (sort_key f xs)"
  using assms
proof (induction xs)
  case Nil
  then show ?case by simp
next
  case (Cons x xs)
  then show ?case
    by (auto intro!: insort_key_stable)
qed

lemma sortChildren_sorted:
  assumes inc: "\<And>p. sorted_wrt (<) (cs p)"
  shows "sortChildren f fq cs i = Some t \<Longrightarrow>
     node_row t = i \<and> attrs t = fq ! i \<and> childrenSorted t"
proof (induction f arbitrary: i t)
  case 0
  then show ?case by simp
next
  case (Suc f)
  let ?xs = "sort_key (\<lambda>i. q_order (fq ! i)) (cs i)"
  from Suc.prems obtain ts where
    ts: "those (map (sortChildren f fq cs) ?xs) = Some ts"
    and t: "t = QuestionNode i (fq ! i) ts"
    by (auto split: option.splits)
  from those_map_Some [OF ts] have rel: "list_all2 (\<lambda>x t. sortChildren f fq cs x = Some t) ?xs ts" .
  then have each: "list_all2 (\<lambda>x t. node_row t = x \<and> attrs t = fq ! x \<and> childrenSorted t) ?xs ts"
    by (rule list_all2_mono) (use Suc.IH in blast)
  then have rows: "?xs = map node_row ts"
    by (induction rule: list_all2_induct) simp_all
  have all: "\<forall>c \<in> set ts. attrs c = fq ! node_row c \<and> childrenSorted c"
    using each by (induction rule: list_all2_induct) simp_all
  have "sorted_wrt (\<lambda>a b. q_order (fq ! a) < q_order (fq ! b) \<or>
      (q_order (fq ! a) = q_order (fq ! b) \<and> a < b)) (map node_row ts)"
    using sort_key_stable [OF inc, of "\<lambda>i. q_order (fq ! i)" i] rows by simp
  then have "sorted_wrt (\<lambda>x y. q_order (fq ! node_row x) < q_order (fq ! node_row y) \<or>
      (q_order (fq ! node_row x) = q_order (fq ! node_row y) \<and> node_row x < node_row y)) ts"
    by (simp add: sorted_wrt_map)
  then have "sorted_wrt precedes ts"
    by (rule sorted_wrt_mono_rel [rotated]) (use all in \<open>auto simp: precedes_def\<close>)
  with all t show ?case
    by (simp add: list_all_iff)
qed

lemma buildTree_sorted:
  assumes "buildTree fq = Some forest"
  shows "list_all childrenSorted forest \<and> sorted_wrt (<) (map node_row forest)"
proof -
  let ?h = "buildHierarchy fq"
  have inc: "\<And>p. sorted_wrt (<) (childrenOf ?h p)"
    by (simp add: buildHierarchy_children sorted_wrt_filter)
  from assms have "those (map (sortChildren (length fq) fq (childrenOf ?h)) (roots ?h))
      = Some forest"
    by (simp add: buildTree_def Let_def)
  from those_map_Some [OF this]
  have "list_all2 (\<lambda>x t. sortChildren (length fq) fq (childrenOf ?h) x = Some t)
      (roots ?h) forest" .
  then have each: "list_all2 (\<lambda>x t. node_row t = x \<and> attrs t = fq ! x \<and> childrenSorted t)
      (roots ?h) forest"
  proof (rule list_all2_mono)
    fix x t
    assume "sortChildren (length fq) fq (childrenOf ?h) x = Some t"
    then show "node_row t = x \<and> attrs t = fq ! x \<and> childrenSorted t"
      by (rule sortChildren_sorted [where cs = "childrenOf ?h", OF inc])
  qed
  then have rows: "roots ?h = map node_row forest"
    by (induction rule: list_all2_induct) simp_all
  have "\<forall>c \<in> set forest. childrenSorted c"
    using each by (induction rule: list_all2_induct) simp_all
  moreover have "sorted_wrt (<) (roots ?h)"
    by (simp add: buildHierarchy_roots sorted_wrt_filter)
  ultimately show ?thesis
    using rows by (simp add: list_all_iff)
qed

lemma loadQuestionsFromCsv_children_sorted:
  assumes "loadQuestionsFromCsv fileContent = Some (Inr forest)"
  shows "list_all childrenSorted forest \<and> sorted_wrt (<) (map node_row forest)"
proof -
  from assms obtain fq where "buildTree fq = Some forest"
    by (auto simp: loadQuestionsFromCsv_def Let_def split: list.splits sum.splits if_splits)
  then show ?thesis by (rule buildTree_sorted)
qed

text \<open>
  Claim C4 fails on the code at the top level: \<open>sortChildren\<close> sorts the children of
  every node reached from the roots, but the array of roots itself is returned in the
  order of the rows.  On the sample catalogue the roots come back as \<open>B\<close> (order 2), then
  \<open>A\<close> (order 1); the children of \<open>A\<close> are sorted, the tie between \<open>D\<close> and \<open>E\<close> in row
  order.
\<close>

theorem C4_roots_not_sorted:
  "map_option (map_sum id (map (\<lambda>n. (q_id (attrs n), q_order (attrs n),
        map (\<lambda>c. (q_id (attrs c), q_order (attrs c))) (children n)))))
     (loadQuestionsFromCsv sampleCsv) =
   Some (Inr [(''B'', 2, []), (''A'', 1, [(''D'', 3), (''E'', 3), (''C'', 5)])])"
  by code_simp

section \<open>The claim on the answer keys\<close>

lemma keysOk_empty: "keysOk Map.empty"
  by (simp add: keysOk_def)

lemma keysOk_upd: "keysOk answers \<Longrightarrow> answerKey key \<Longrightarrow> keysOk (answers(key \<mapsto> a))"
  by (simp add: keysOk_def)

lemma foldl_invariant:
  assumes "P a" and "\<And>a x. P a \<Longrightarrow> P (f a x)"
  shows "P (foldl f a xs)"
  using assms(1) by (induction xs arbitrary: a) (simp_all add: assms(2))

lemma storeBucket_keysOk:
  assumes "keysOk answers"
    and "answerKey (endId @ ''_'' @ fst entry)"
    and "answerKey (avgId @ ''_'' @ fst entry)"
  shows "keysOk (storeBucket endId avgId period tableChildren answers entry)"
proof -
  obtain bucket bucketEmployees where e: "entry = (bucket, bucketEmployees)"
    by (cases entry)
  show ?thesis
    unfolding storeBucket_def e prod.case
  proof (rule foldl_invariant [where P = keysOk])
    show "keysOk answers" by (rule assms(1))
  next
    fix answers :: Answers and child :: QuestionNode
    assume "keysOk answers"
    then show "keysOk (let answerId = q_id (attrs child) @ ''_'' @ bucket
                 in if q_id (attrs child) = endId
                    then answers(answerId \<mapsto>
                           computed (of_nat (computeHeadcountAtPeriodEnd bucketEmployees
                             (period_end period))))
                    else if q_id (attrs child) = avgId
                    then answers(answerId \<mapsto>
                           computed (computeAverageHeadcount bucketEmployees period))
                    else answers)"
      using assms(2,3) by (auto simp: Let_def e intro: keysOk_upd)
  qed
qed

lemma foldl_buckets_keysOk:
  assumes "keysOk answers"
    and "\<And>bucket. bucket \<noteq> skipped \<Longrightarrow> answerKey (endId @ ''_'' @ bucket)"
    and "\<And>bucket. bucket \<noteq> skipped \<Longrightarrow> answerKey (avgId @ ''_'' @ bucket)"
  shows "keysOk (foldl (\<lambda>answers entry.
                        if fst entry = skipped then answers
                        else storeBucket endId avgId period tableChildren answers entry)
                 answers entries)"
proof (rule foldl_invariant [where P = keysOk])
  show "keysOk answers" by (rule assms(1))
next
  fix answers :: Answers and entry :: "string \<times> Employee list"
  assume "keysOk answers"
  then show "keysOk (if fst entry = skipped then answers
      else storeBucket endId avgId period tableChildren answers entry)"
    using assms(2,3) by (auto intro: storeBucket_keysOk)
qed

lemma answerKey_single:
  "bucket \<noteq> ''unknown'' \<Longrightarrow> childId \<in> set [''S1-6_05'', ''S1-6_06'', ''S1-6_09'', ''S1-6_10'',
       ''S1-6_19'', ''S1-6_20''] \<Longrightarrow> answerKey (childId @ ''_'' @ bucket)"
  unfolding answerKey_def by blast

lemma answerKey_composite:
  "bucket \<noteq> ''unknown_unknown'' \<Longrightarrow> childId \<in> set [''K_718'', ''K_719'']
     \<Longrightarrow> answerKey (childId @ ''_'' @ bucket)"
  unfolding answerKey_def by blast

lemma processCountryTable_keysOk:
  "keysOk answers \<Longrightarrow> processCountryTable tableNode employees period answers = Inr answers'
     \<Longrightarrow> keysOk answers'"
  by (auto simp: processCountryTable_def split: sum.splits
      intro!: foldl_buckets_keysOk answerKey_single)

lemma processRegionTable_keysOk:
  "keysOk answers \<Longrightarrow> processRegionTable tableNode employees period answers = Inr answers'
     \<Longrightarrow> keysOk answers'"
  by (auto simp: processRegionTable_def split: sum.splits
      intro!: foldl_buckets_keysOk answerKey_single)

lemma processCategoryTable_keysOk:
  "keysOk answers \<Longrightarrow> processCategoryTable tableNode employees period answers = Inr answers'
     \<Longrightarrow> keysOk answers'"
  by (auto simp: processCategoryTable_def split: sum.splits
      intro!: foldl_buckets_keysOk answerKey_single)

lemma processContractGenderTable_keysOk:
  "keysOk answers \<Longrightarrow> processContractGenderTable tableNode employees period answers = Inr answers'
     \<Longrightarrow> keysOk answers'"
  by (auto simp: processContractGenderTable_def Let_def
      intro!: foldl_buckets_keysOk answerKey_composite)

lemma processTableQuestion_keysOk:
  "keysOk answers \<Longrightarrow> processTableQuestion tableNode period employees answers = Inr answers'
     \<Longrightarrow> keysOk answers'"
  by (auto simp: processTableQuestion_def Let_def split: if_splits
      dest: processCountryTable_keysOk processRegionTable_keysOk processCategoryTable_keysOk
        processContractGenderTable_keysOk)

lemma processRegularQuestion_keysOk:
  "keysOk answers \<Longrightarrow> keysOk (processRegularQuestion node employees period answers)"
  by (auto simp: processRegularQuestion_def Let_def answerKey_def intro!: keysOk_upd)

lemma foldl_stateOk:
  assumes "\<And>x st. x \<in> set xs \<Longrightarrow> stateOk st \<Longrightarrow> stateOk (f st x)"
    and "stateOk st"
  shows "stateOk (foldl f st xs)"
  using assms by (induction xs arbitrary: st) simp_all

lemma processQuestionNode_stateOk:
  "stateOk st \<Longrightarrow> stateOk (processQuestionNode period employees node st)"
proof (induction node arbitrary: st)
  case (QuestionNode r a cs)
  show ?case
  proof (cases st)
    case (Inl e)
    then show ?thesis by (simp add: stateOk_def)
  next
    case (Inr answers)
    with QuestionNode.prems have ok: "keysOk answers"
      by (simp add: stateOk_def)
    have start: "stateOk (if q_content a = ''Table''
             then processTableQuestion (QuestionNode r a cs) period employees answers
             else Inr (processRegularQuestion (QuestionNode r a cs) employees period answers))"
      using ok processTableQuestion_keysOk [of answers "QuestionNode r a cs" period employees]
        processRegularQuestion_keysOk [of answers "QuestionNode r a cs" employees period]
      by (auto simp: stateOk_def split: sum.splits)
    have "stateOk (foldl (\<lambda>st child. processQuestionNode period employees child st)
            (if q_content a = ''Table''
             then processTableQuestion (QuestionNode r a cs) period employees answers
             else Inr (processRegularQuestion (QuestionNode r a cs) employees period answers))
            cs)"
      using QuestionNode.IH start by (intro foldl_stateOk) simp_all
    with Inr show ?thesis by simp
  qed
qed

lemma computeAnswers_keysOk:
  assumes "computeAnswers declaration questionTree = Inr answers"
  shows "keysOk answers"
proof -
  from assms obtain period where
    run: "processQuestionNodes period (normalizeEmployees declaration) questionTree Map.empty
      = Inr answers"
    by (auto simp: computeAnswers_def split: sum.splits)
  have "stateOk (processQuestionNodes period (normalizeEmployees declaration) questionTree
      Map.empty)"
    unfolding processQuestionNodes_def
    by (intro foldl_stateOk processQuestionNode_stateOk) (simp_all add: stateOk_def keysOk_empty)
  with run show ?thesis by (simp add: stateOk_def)
qed

text \<open>
  Claim C7 as stated: no answer is stored under a key whose bucket key has the marker
  \<open>unknown\<close> in any component.  It fails on the gender/job-classification table: the
  second individual of the sample declaration has gender F and no contract, her
  bucket is \<open>F_unknown\<close>, and the answer for the child \<open>K_718\<close> is stored under
  \<open>K_718_F_unknown\<close>.
\<close>

theorem C7_unknown_component_counterexample:
  "map compositeKey (normalizeEmployees sampleDeclaration) = [''M_3855'', ''F_unknown'']
   \<and> (case computeAnswers sampleDeclaration sampleTree of
        Inl e \<Rightarrow> False
      | Inr answers \<Rightarrow>
          answers ''K_718_F_unknown'' = Some \<lparr>ans_value = Some 0, source = Computed\<rparr>)"
  by code_simp

text \<open>
  Claim C7, amended: for every declaration and question tree on which \<open>computeAnswers\<close>
  returns, every key of the answer map is the id of a global or manual question or a
  composite key \<open>{childId}_{bucketKey}\<close> of a table metric; for the tables by country,
  by region and by job classification the bucket key is never \<open>unknown\<close>, and for the
  composite gender/job-classification table it is never \<open>unknown_unknown\<close>.  A
  composite bucket with one \<open>unknown\<close> component only is not skipped.
\<close>

theorem C7_table_keys_amended:
  assumes "computeAnswers declaration questionTree = Inr answers"
    and "answers key = Some a"
  shows "key \<in> set [''S1-6_02'', ''S1-6_03'', ''S1-6_11'', ''S1-6_12'',
                ''S1-6_14'', ''S1-6_15'', ''S1-6_16'', ''S1-6_17'']
     \<or> (\<exists>childId bucket. key = childId @ ''_'' @ bucket \<and>
           childId \<in> set [''S1-6_05'', ''S1-6_06'', ''S1-6_09'', ''S1-6_10'',
                           ''S1-6_19'', ''S1-6_20''] \<and>
           bucket \<noteq> ''unknown'')
     \<or> (\<exists>childId bucket. key = childId @ ''_'' @ bucket \<and>
           childId \<in> set [''K_718'', ''K_719''] \<and>
           bucket \<noteq> ''unknown_unknown'')"
  using computeAnswers_keysOk [OF assms(1)] assms(2)
  unfolding keysOk_def answerKey_def by blast

theorem C7_table_keys_amended_witness:
  "\<exists>answers. computeAnswers sampleDeclaration sampleTree = Inr answers
     \<and> answers ''S1-6_19_3855'' = Some \<lparr>ans_value = Some 1, source = Computed\<rparr>
     \<and> (\<exists>childId bucket. ''S1-6_19_3855'' = childId @ ''_'' @ bucket \<and>
           childId \<in> set [''S1-6_05'', ''S1-6_06'', ''S1-6_09'', ''S1-6_10'',
                           ''S1-6_19'', ''S1-6_20''] \<and>
           bucket \<noteq> ''unknown'')"
proof -
  have "case computeAnswers sampleDeclaration sampleTree of
        Inl e \<Rightarrow> False
      | Inr answers \<Rightarrow>
          answers ''S1-6_19_3855'' = Some \<lparr>ans_value = Some 1, source = Computed\<rparr>"
    by code_simp
  then obtain answers where run: "computeAnswers sampleDeclaration sampleTree = Inr answers"
    and look: "answers ''S1-6_19_3855'' = Some \<lparr>ans_value = Some 1, source = Computed\<rparr>"
    by (auto split: sum.splits)
  from C7_table_keys_amended [OF run look]
  have "\<exists>childId bucket. ''S1-6_19_3855'' = childId @ ''_'' @ bucket \<and>
           childId \<in> set [''S1-6_05'', ''S1-6_06'', ''S1-6_09'', ''S1-6_10'',
                           ''S1-6_19'', ''S1-6_20''] \<and>
           bucket \<noteq> ''unknown''"
    by auto
  with run look show ?thesis by blast
qed

end
